theory Spec2Isabelle
  imports Main "HOL-Library.Word"
begin

unbundle bit_operations_syntax

section \<open>Bytes, byte orders and readers\<close>

text \<open>
  The package \<open>universalpayload\<close> works on byte slices. A byte is an 8-bit word, Go's
  \<open>uint16\<close>, \<open>uint32\<close> and \<open>uint64\<close> are words of that width (arithmetic wraps), and a
  slice is a list. The package has an amd64 and an arm64 variant, so Go's \<open>int\<close> is the
  64-bit signed integer: a \<open>64 word\<close> read with \<open>sint\<close>.
\<close>

type_synonym byte = "8 word"

text \<open>\<open>binary.LittleEndian.PutUint16/32/64\<close>: the bytes of a value, lowest first.\<close>

definition putUint16 :: "16 word \<Rightarrow> byte list" where
  "putUint16 v = [ucast v, ucast (drop_bit 8 v)]"

definition putUint32 :: "32 word \<Rightarrow> byte list" where
  "putUint32 v = [ucast v, ucast (drop_bit 8 v), ucast (drop_bit 16 v), ucast (drop_bit 24 v)]"

definition putUint64 :: "64 word \<Rightarrow> byte list" where
  "putUint64 v = [ucast v, ucast (drop_bit 8 v), ucast (drop_bit 16 v), ucast (drop_bit 24 v),
     ucast (drop_bit 32 v), ucast (drop_bit 40 v), ucast (drop_bit 48 v), ucast (drop_bit 56 v)]"

text \<open>
  \<open>binary.LittleEndian.Uint16/32/64\<close> read the first bytes of a slice. Go panics when
  the slice is shorter than the value; every caller below checks the length first and
  turns the short slice into an explicit outcome.
\<close>

definition getUint16 :: "byte list \<Rightarrow> 16 word" where
  "getUint16 b = ucast (b ! 0) OR push_bit 8 (ucast (b ! 1))"

definition getUint32 :: "byte list \<Rightarrow> 32 word" where
  "getUint32 b = ucast (b ! 0) OR push_bit 8 (ucast (b ! 1)) OR push_bit 16 (ucast (b ! 2))
      OR push_bit 24 (ucast (b ! 3))"

definition getUint64 :: "byte list \<Rightarrow> 64 word" where
  "getUint64 b = ucast (b ! 0) OR push_bit 8 (ucast (b ! 1)) OR push_bit 16 (ucast (b ! 2))
      OR push_bit 24 (ucast (b ! 3)) OR push_bit 32 (ucast (b ! 4)) OR push_bit 40 (ucast (b ! 5))
      OR push_bit 48 (ucast (b ! 6)) OR push_bit 56 (ucast (b ! 7))"

text \<open>
  \<open>binary.LittleEndian.PutUint64(data[a:], v)\<close> overwrites the eight bytes of \<open>data\<close>
  from index \<open>a\<close> in place; the caller has checked that they exist.
\<close>

definition storeUint64 :: "byte list \<Rightarrow> nat \<Rightarrow> 64 word \<Rightarrow> byte list" where
  "storeUint64 data a v = take a data @ putUint64 v @ drop (a + 8) data"

text \<open>
  \<open>binary.Read(r, binary.LittleEndian, &v)\<close> on a \<open>bytes.Reader\<close> whose unread bytes
  are the list \<open>r\<close>. It reads through \<open>io.ReadFull\<close>: \<open>io.EOF\<close> when no byte is left,
  \<open>io.ErrUnexpectedEOF\<close> when some but too few are left, otherwise the value and the
  reader advanced past it.
\<close>

datatype io_error = EOF | ErrUnexpectedEOF

definition binary_Read_uint16 :: "byte list \<Rightarrow> io_error + (16 word \<times> byte list)" where
  "binary_Read_uint16 r =
     (if r = [] then Inl EOF
      else if length r < 2 then Inl ErrUnexpectedEOF
      else Inr (getUint16 (take 2 r), drop 2 r))"

definition binary_Read_uint32 :: "byte list \<Rightarrow> io_error + (32 word \<times> byte list)" where
  "binary_Read_uint32 r =
     (if r = [] then Inl EOF
      else if length r < 4 then Inl ErrUnexpectedEOF
      else Inr (getUint32 (take 4 r), drop 4 r))"

section \<open>Errors\<close>

text \<open>
  The package's error values. The errors that wrap an error of a library carry that
  error's message. \<open>Panic\<close> is the abnormal end of the program: a Go run-time panic
  (an index, a slice bound or the length of a new slice out of range, a buffer too
  large), which no caller in the package recovers, or a fatal error of the runtime (out
  of memory).
\<close>

datatype error =
    ErrFailToReadFdtFile string string
  | ErrNodeImagesNotFound
  | ErrNodeTianocoreNotFound
  | ErrNodeLoadNotFound
  | ErrNodeEntryStartNotFound
  | ErrNodeDataOffsetNotFound
  | ErrNodeDataSizeNotFound
  | ErrFailToConvertLoad string
  | ErrFailToConvertEntryStart string
  | ErrFailToConvertDataOffset string
  | ErrFailToConvertDataSize string
  | ErrPeFailToGetPageRVA
  | ErrPeFailToGetBlockSize
  | ErrPeFailToGetEntry
  | ErrPeFailToCreatePeFile
  | ErrPeFailToGetRelocData
  | ErrPeUnsupportedPeHeader
  | ErrPeRelocOutOfBound
  | ErrAlignPadRange
  | Panic

section \<open>Constants\<close>

definition FirstLevelNodeName :: string where "FirstLevelNodeName = ''images''"
definition SecondLevelNodeName :: string where "SecondLevelNodeName = ''tianocore''"
definition LoadAddrPropertyName :: string where "LoadAddrPropertyName = ''load''"
definition EntryAddrPropertyName :: string where "EntryAddrPropertyName = ''entry-start''"
definition DataOffsetPropertyName :: string where "DataOffsetPropertyName = ''data-offset''"
definition DataSizePropertyName :: string where "DataSizePropertyName = ''data-size''"

definition tmpStackTop :: "64 word" where "tmpStackTop = 0x2000"

definition IMAGE_REL_BASED_ABSOLUTE :: "16 word" where "IMAGE_REL_BASED_ABSOLUTE = 0"
definition IMAGE_REL_BASED_HIGHLOW :: "16 word" where "IMAGE_REL_BASED_HIGHLOW = 3"
definition IMAGE_REL_BASED_DIR64 :: "16 word" where "IMAGE_REL_BASED_DIR64 = 10"

text \<open>\<open>math.MaxInt\<close> where \<open>int\<close> has 64 bits.\<close>

definition MaxInt :: "64 word" where "MaxInt = 0x7FFFFFFFFFFFFFFF"

record FdtLoad =
  Load :: "64 word"
  EntryStart :: "64 word"
  DataOffset :: "32 word"
  DataSize :: "32 word"

section \<open>alignHOBLength\<close>

text \<open>
  The Go runtime's \<open>maxAlloc\<close> on linux/amd64 and linux/arm64 (48 address bits for the
  heap). \<open>make([]byte, n)\<close> panics with "makeslice: len out of range" when \<open>n\<close> is above it.
\<close>

definition maxAlloc :: nat where "maxAlloc = 2 ^ 48"

text \<open>
  \<open>alignHOBLength(expectLen uint64, bufLen int, buf *bytes.Buffer)\<close>. The buffer is its
  content; the function returns the error (or \<open>None\<close> for \<open>nil\<close>) and the buffer after
  the call. \<open>uint64(bufLen)\<close> keeps the bits of \<open>bufLen\<close>, so the first comparison is the
  unsigned one on words; \<open>padLen > 0\<close> compares signed.

  The pad needs memory: \<open>make([]byte, padLen)\<close> allocates it, \<open>binary.Write\<close> copies it
  and \<open>bytes.Buffer.Write\<close> grows the buffer for it. \<open>make\<close> panics when \<open>padLen\<close> is
  above \<open>maxAlloc\<close>. Below that it depends on the machine and on the buffer whether the
  memory is there; that is the parameter \<open>mem\<close>: \<open>mem buf n\<close> says that the runtime has
  the memory to pad the buffer \<open>buf\<close> by \<open>n\<close> bytes. Where it has not, the program ends
  (the buffer panics with \<open>ErrTooLarge\<close>, or the runtime stops with "out of memory"), and
  nothing was written. Where it has, the write to the buffer returns no error.
\<close>

definition alignHOBLength ::
  "(byte list \<Rightarrow> nat \<Rightarrow> bool) \<Rightarrow> 64 word \<Rightarrow> 64 word \<Rightarrow> byte list \<Rightarrow> error option \<times> byte list" where
  "alignHOBLength mem expectLen bufLen buf =
     (if expectLen < bufLen then (Some ErrAlignPadRange, buf)
      else if expectLen > MaxInt then (Some ErrAlignPadRange, buf)
      else (let padLen = expectLen - bufLen in
            if 0 <s padLen then
              (if maxAlloc < unat padLen \<or> \<not> mem buf (unat padLen) then (Some Panic, buf)
               else (None, buf @ replicate (unat padLen) 0))
            else (None, buf)))"

section \<open>constructTrampoline\<close>

text \<open>The amd64 variant (\<open>utilities.go\<close> and \<open>arch_amd64.go\<close> hold the same function).\<close>

definition appendUint64 :: "byte list \<Rightarrow> 64 word \<Rightarrow> byte list" where
  "appendUint64 sl v = sl @ putUint64 v"

definition constructTrampoline_amd64 :: "byte list \<Rightarrow> 64 word \<Rightarrow> 64 word \<Rightarrow> byte list" where
  "constructTrampoline_amd64 buf hobAddr entry =
     (let loadStackAddress = [0x48, 0x8b, 0x05, 0x19, 0x00, 0x00, 0x00];
          setStackAddress = [0x48, 0x89, 0xc4];
          loadBootparameter = [0x48, 0x8b, 0x05, 0x17, 0x00, 0x00, 0x00];
          setBootparameter = [0x48, 0x89, 0xc1];
          loadKernelAddress = [0x48, 0x8b, 0x05, 0x15, 0x00, 0x00, 0x00];
          jumpToKernelAddress = [0xff, 0xe0];
          padForAlignment = [0x00, 0x00, 0x00];
          buf = buf @ loadStackAddress;
          buf = buf @ setStackAddress;
          buf = buf @ loadBootparameter;
          buf = buf @ setBootparameter;
          buf = buf @ loadKernelAddress;
          buf = buf @ jumpToKernelAddress;
          buf = buf @ padForAlignment;
          stackTop = hobAddr + tmpStackTop;
          buf = appendUint64 buf stackTop;
          buf = appendUint64 buf hobAddr;
          buf = appendUint64 buf entry
      in buf)"

text \<open>The arm64 variant: twelve 32-bit little-endian words.\<close>

definition appendUint32 :: "byte list \<Rightarrow> 32 word \<Rightarrow> byte list" where
  "appendUint32 sl v = sl @ putUint32 v"

definition constructTrampoline_arm64 :: "byte list \<Rightarrow> 64 word \<Rightarrow> 64 word \<Rightarrow> byte list" where
  "constructTrampoline_arm64 buf hobAddr entry =
     (let stackTop = hobAddr + tmpStackTop;
          buf = appendUint32 buf 0x580000c4;
          buf = appendUint32 buf 0x580000e0;
          buf = appendUint32 buf 0xaa1f03e1;
          buf = appendUint32 buf 0x580000e2;
          buf = appendUint32 buf 0x9100005f;
          buf = appendUint32 buf 0xd61f0080;
          buf = appendUint32 buf (ucast (entry AND 0xffffffff));
          buf = appendUint32 buf (ucast (drop_bit 32 entry));
          buf = appendUint32 buf (ucast (hobAddr AND 0xffffffff));
          buf = appendUint32 buf (ucast (drop_bit 32 hobAddr));
          buf = appendUint32 buf (ucast (stackTop AND 0xffffffff));
          buf = appendUint32 buf (ucast (drop_bit 32 stackTop))
      in buf)"

section \<open>relocatePE\<close>

text \<open>
  The inner loop of \<open>relocatePE\<close>, \<open>for i := 0; i < int(entryCount); i++\<close>, from the
  state at its head: the counter, the unread bytes \<open>r\<close> of the relocation section and the
  image bytes \<open>data\<close>, which the loop changes in place. The result is the error it returns
  from \<open>relocatePE\<close> with (or \<open>None\<close> when the loop runs to its end), the unread bytes and
  the image bytes at that moment.

  A DIR64 entry passes the guard \<open>relocAddr >= uint32(len(data))\<close> and then reads and
  writes eight bytes of \<open>data[relocAddr:]\<close>; where that slice is shorter than eight bytes
  \<open>binary.LittleEndian.Uint64\<close> panics before anything is written.
\<close>

function relocEntries ::
  "nat \<Rightarrow> nat \<Rightarrow> 32 word \<Rightarrow> 64 word \<Rightarrow> byte list \<Rightarrow> byte list
     \<Rightarrow> error option \<times> byte list \<times> byte list" where
  "relocEntries i entryCount pageRVA delta r data =
     (if i < entryCount then
        (case binary_Read_uint16 r of
           Inl err \<Rightarrow> (Some ErrPeFailToGetEntry, r, data)
         | Inr (entry, r') \<Rightarrow>
             (if drop_bit 12 entry = IMAGE_REL_BASED_DIR64 then
                (if pageRVA + ucast (entry AND 0xfff) \<ge> (of_nat (length data) :: 32 word)
                 then (Some ErrPeRelocOutOfBound, r', data)
                 else if length (drop (unat (pageRVA + ucast (entry AND 0xfff))) data) < 8
                 then (Some Panic, r', data)
                 else relocEntries (i + 1) entryCount pageRVA delta r'
                        (storeUint64 data (unat (pageRVA + ucast (entry AND 0xfff)))
                           (getUint64 (drop (unat (pageRVA + ucast (entry AND 0xfff))) data) + delta)))
              else relocEntries (i + 1) entryCount pageRVA delta r' data))
      else (None, r, data))"
  by pat_completeness auto
termination
  by (relation "measure (\<lambda>(i, entryCount, pageRVA, delta, r, data). entryCount - i)") auto

declare relocEntries.simps [simp del]

lemma binary_Read_uint16_length:
  "binary_Read_uint16 r = Inr (v, r') \<Longrightarrow> length r' + 2 = length r"
  by (auto simp: binary_Read_uint16_def split: if_splits)

lemma binary_Read_uint32_length:
  "binary_Read_uint32 r = Inr (v, r') \<Longrightarrow> length r' + 4 = length r"
  by (auto simp: binary_Read_uint32_def split: if_splits)

lemma relocEntries_reader_length:
  "relocEntries i n pageRVA delta r data = (e, r', data') \<Longrightarrow> length r' \<le> length r"
proof (induction i n pageRVA delta r data rule: relocEntries.induct)
  case (1 i n pageRVA delta r data)
  show ?case
  proof (cases "i < n")
    case False
    with "1.prems" show ?thesis by (simp add: relocEntries.simps)
  next
    case True
    show ?thesis
    proof (cases "binary_Read_uint16 r")
      case (Inl err)
      with True "1.prems" show ?thesis by (simp add: relocEntries.simps)
    next
      case (Inr p)
      obtain entry r1 where p: "p = (entry, r1)" by (cases p)
      have len: "length r1 \<le> length r"
        using binary_Read_uint16_length [of r entry r1] Inr p by simp
      from "1.prems" True Inr p "1.IH" [of "(entry, r1)" entry r1] len show ?thesis
        by (subst (asm) relocEntries.simps) (auto split: if_splits)
    qed
  qed
qed

lemma relocEntries_reader_length_sym:
  "(e, r', data') = relocEntries i n pageRVA delta r data \<Longrightarrow> length r' \<le> length r"
  using relocEntries_reader_length [of i n pageRVA delta r data e r' data'] by simp

text \<open>
  The outer loop, \<open>for { ... }\<close>, from the state at its head. The only way out with
  \<open>nil\<close> is the \<open>break\<close> on \<open>io.EOF\<close> from the read of \<open>pageRVA\<close>.
  \<open>entryCount := (blockSize - 8) / 2\<close> is computed on \<open>uint32\<close>, and \<open>int(entryCount)\<close>
  is its unsigned value.
\<close>

function relocBlocks :: "byte list \<Rightarrow> 64 word \<Rightarrow> byte list \<Rightarrow> error option \<times> byte list" where
  "relocBlocks r delta data =
     (case binary_Read_uint32 r of
        Inl err \<Rightarrow> (if err = EOF then (None, data) else (Some ErrPeFailToGetPageRVA, data))
      | Inr (pageRVA, r1) \<Rightarrow>
          (case binary_Read_uint32 r1 of
             Inl err \<Rightarrow> (Some ErrPeFailToGetBlockSize, data)
           | Inr (blockSize, r2) \<Rightarrow>
               (case relocEntries 0 (unat ((blockSize - 8) div 2)) pageRVA delta r2 data of
                  (Some e, r3, data') \<Rightarrow> (Some e, data')
                | (None, r3, data') \<Rightarrow> relocBlocks r3 delta data')))"
  by pat_completeness auto
termination
  apply (relation "measure (\<lambda>(r, delta, data). length r)")
   apply simp
  apply (auto dest!: binary_Read_uint32_length relocEntries_reader_length_sym)
  done

declare relocBlocks.simps [simp del]

definition relocatePE :: "byte list \<Rightarrow> 64 word \<Rightarrow> byte list \<Rightarrow> error option \<times> byte list" where
  "relocatePE relocData delta data = relocBlocks relocData delta data"

section \<open>relocateFdtdata\<close>

text \<open>
  \<open>debug/pe\<close> is Go's standard library. \<open>relocateFdtdata\<close> uses of a parsed file only
  the optional header, the names of the sections and the bytes of a section. They are:
  \<^item> \<open>pe.File.OptionalHeader\<close>, an interface value holding a 32-bit header, a 64-bit
    header (of which only \<open>ImageBase\<close> is read) or nothing;
  \<^item> \<open>pe.Section\<close>, with its \<open>Name\<close> and \<open>Data()\<close>. \<open>Data()\<close> reads through the
    reader the file was opened on, that is from the image bytes as they are at the moment
    of the call, and returns a copy of them or an error: a function of the image bytes.
  The parser \<open>pe.NewFile\<close> itself is a parameter of the model.
\<close>

datatype OptionalHeader = OptionalHeader32 | OptionalHeader64 (ImageBase: "64 word") | NoOptionalHeader

record Section =
  Name :: string
  Data :: "byte list \<Rightarrow> byte list option"

record File =
  OptionalHeader :: OptionalHeader
  Sections :: "Section list"

text \<open>
  The loop \<open>for _, section := range peFile.Sections\<close> on the image bytes \<open>img\<close>
  (the slice \<open>data[start:end]\<close>), which every \<open>.reloc\<close> section relocates in place.
\<close>

fun relocSections :: "Section list \<Rightarrow> 64 word \<Rightarrow> byte list \<Rightarrow> error option \<times> byte list" where
  "relocSections [] delta img = (None, img)"
| "relocSections (section # rest) delta img =
     (if Name section = ''.reloc'' then
        (case Data section img of
           None \<Rightarrow> (Some ErrPeFailToGetRelocData, img)
         | Some relocData \<Rightarrow>
             (case relocatePE relocData delta img of
                (Some err, img') \<Rightarrow> (Some err, img')
              | (None, img') \<Rightarrow> relocSections rest delta img'))
      else relocSections rest delta img)"

text \<open>
  \<open>relocateFdtdata(dst, fdtLoad, data)\<close> returns the error, the record behind the
  pointer \<open>fdtLoad\<close> and the bytes of \<open>data\<close> after the call. \<open>end\<close> is a \<open>uint32\<close>
  sum and wraps. The slice expression \<open>data[start:end]\<close> panics unless
  \<open>start \<le> end \<le> cap(data)\<close>; the blob is taken to have no spare capacity, so
  \<open>cap(data)\<close> is its length. The slice shares its bytes with \<open>data\<close>: what the walk
  writes lands in \<open>data\<close> between \<open>start\<close> and \<open>end\<close>.
\<close>

definition relocateFdtdata ::
  "(byte list \<Rightarrow> File option) \<Rightarrow> 64 word \<Rightarrow> FdtLoad \<Rightarrow> byte list
     \<Rightarrow> error option \<times> FdtLoad \<times> byte list" where
  "relocateFdtdata pe_NewFile dst fdtLoad data =
     (let start = unat (DataOffset fdtLoad);
          end' = unat (DataOffset fdtLoad + DataSize fdtLoad)
      in if \<not> (start \<le> end' \<and> end' \<le> length data) then (Some Panic, fdtLoad, data)
         else (let img = take (end' - start) (drop start data) in
           case pe_NewFile img of
             None \<Rightarrow> (Some ErrPeFailToCreatePeFile, fdtLoad, data)
           | Some peFile \<Rightarrow>
               (case OptionalHeader peFile of
                  OptionalHeader64 preBase \<Rightarrow>
                    (let delta = dst + ucast (DataOffset fdtLoad) - preBase in
                     case relocSections (Sections peFile) delta img of
                       (Some err, img') \<Rightarrow> (Some err, fdtLoad, take start data @ img' @ drop end' data)
                     | (None, img') \<Rightarrow>
                         (None,
                          fdtLoad\<lparr>EntryStart := dst + (EntryStart fdtLoad - Load fdtLoad), Load := dst\<rparr>,
                          take start data @ img' @ drop end' data))
                | _ \<Rightarrow> (Some ErrPeUnsupportedPeHeader, fdtLoad, data))))"

section \<open>getFdtInfo\<close>

text \<open>
  \<open>getFdtInfo\<close> reads the device tree through the package \<open>pkg/dt\<close>, which is a
  parameter of the model: its types \<open>FDT\<close>, \<open>Node\<close> and \<open>Property\<close> are type variables
  and the functions \<open>getFdtInfo\<close> calls are the fields of a record. An error of the
  library is its message.
\<close>

record ('fdt, 'node, 'prop) dt_package =
  ReadFDT :: "byte list \<Rightarrow> string + 'fdt"
  ReadFile :: "string \<Rightarrow> string + 'fdt"
  FDT_NodeByName :: "'fdt \<Rightarrow> string \<Rightarrow> 'node option"
  Node_NodeByName :: "'node \<Rightarrow> string \<Rightarrow> 'node option"
  LookProperty :: "'node \<Rightarrow> string \<Rightarrow> 'prop option"
  AsU64 :: "'prop \<Rightarrow> string + 64 word"
  AsU32 :: "'prop \<Rightarrow> string + 32 word"

text \<open>
  \<open>getFdtInfo(name, dtb)\<close>: \<open>dtb\<close> is \<open>None\<close> for \<open>nil\<close>, otherwise the bytes behind
  the \<open>io.ReaderAt\<close>. The result is the error (\<open>Inl\<close>, and then the pointer returned is
  \<open>nil\<close>) or the record the returned pointer refers to (\<open>Inr\<close>).
\<close>

definition getFdtInfo ::
  "('fdt, 'node, 'prop) dt_package \<Rightarrow> string \<Rightarrow> byte list option \<Rightarrow> error + FdtLoad" where
  "getFdtInfo dt name dtb =
     (case (case dtb of Some bs \<Rightarrow> ReadFDT dt bs | None \<Rightarrow> ReadFile dt name) of
        Inl err \<Rightarrow> Inl (ErrFailToReadFdtFile name err)
      | Inr fdt \<Rightarrow>
     (case FDT_NodeByName dt fdt FirstLevelNodeName of
        None \<Rightarrow> Inl ErrNodeImagesNotFound
      | Some firstLevelNode \<Rightarrow>
     (case Node_NodeByName dt firstLevelNode SecondLevelNodeName of
        None \<Rightarrow> Inl ErrNodeTianocoreNotFound
      | Some secondLevelNode \<Rightarrow>
     (case LookProperty dt secondLevelNode LoadAddrPropertyName of
        None \<Rightarrow> Inl ErrNodeLoadNotFound
      | Some loadAddrProp \<Rightarrow>
     (case AsU64 dt loadAddrProp of
        Inl err \<Rightarrow> Inl (ErrFailToConvertLoad err)
      | Inr loadAddr \<Rightarrow>
     (case LookProperty dt secondLevelNode EntryAddrPropertyName of
        None \<Rightarrow> Inl ErrNodeEntryStartNotFound
      | Some entryAddrProp \<Rightarrow>
     (case AsU64 dt entryAddrProp of
        Inl err \<Rightarrow> Inl (ErrFailToConvertEntryStart err)
      | Inr entryAddr \<Rightarrow>
     (case LookProperty dt secondLevelNode DataOffsetPropertyName of
        None \<Rightarrow> Inl ErrNodeDataOffsetNotFound
      | Some dataOffsetProp \<Rightarrow>
     (case AsU32 dt dataOffsetProp of
        Inl err \<Rightarrow> Inl (ErrFailToConvertDataOffset err)
      | Inr dataOffset \<Rightarrow>
     (case LookProperty dt secondLevelNode DataSizePropertyName of
        None \<Rightarrow> Inl ErrNodeDataSizeNotFound
      | Some dataSizeProp \<Rightarrow>
     (case AsU32 dt dataSizeProp of
        Inl err \<Rightarrow> Inl (ErrFailToConvertDataSize err)
      | Inr dataSize \<Rightarrow>
          Inr \<lparr>Load = loadAddr, EntryStart = entryAddr,
               DataOffset = dataOffset, DataSize = dataSize\<rparr>)))))))))))"

section \<open>Describing relocation streams and their effect\<close>

text \<open>
  The definitions of this section are not functions of the package. They name what
  \<open>relocatePE\<close> computes for an entry, so that statements about the walk can be written:
  \<open>isDIR64\<close> is the test \<open>entryType == IMAGE_REL_BASED_DIR64\<close> on \<open>entry >> 12\<close>,
  \<open>relocAddr\<close> the index \<open>pageRVA + uint32(entry & 0xfff)\<close> (a \<open>uint32\<close> sum), and
  \<open>applyFixups\<close> the image after the DIR64 entries of a list were applied one after
  the other, each adding \<open>delta\<close> to the eight bytes at its address.
\<close>

definition isDIR64 :: "16 word \<Rightarrow> bool" where
  "isDIR64 entry \<longleftrightarrow> drop_bit 12 entry = IMAGE_REL_BASED_DIR64"

definition relocAddr :: "32 word \<Rightarrow> 16 word \<Rightarrow> nat" where
  "relocAddr pageRVA entry = unat (pageRVA + ucast (entry AND 0xfff))"

fun applyFixups :: "32 word \<Rightarrow> 64 word \<Rightarrow> 16 word list \<Rightarrow> byte list \<Rightarrow> byte list" where
  "applyFixups pageRVA delta [] data = data"
| "applyFixups pageRVA delta (entry # entries) data =
     applyFixups pageRVA delta entries
       (if isDIR64 entry
        then storeUint64 data (relocAddr pageRVA entry)
               (getUint64 (drop (relocAddr pageRVA entry) data) + delta)
        else data)"

text \<open>
  The bytes of a relocation block: the header (\<open>pageRVA\<close>, \<open>blockSize\<close>) and the
  entries, all little-endian.
\<close>

definition block :: "32 word \<Rightarrow> 32 word \<Rightarrow> 16 word list \<Rightarrow> byte list" where
  "block pageRVA blockSize entries =
     putUint32 pageRVA @ putUint32 blockSize @ concat (map putUint16 entries)"

text \<open>
  The addresses the DIR64 entries of a block point to, in the order of the entries, and
  the condition that no two of the eight-byte ranges at these addresses overlap.
\<close>

definition targets :: "32 word \<Rightarrow> 16 word list \<Rightarrow> nat list" where
  "targets pageRVA entries = map (relocAddr pageRVA) (filter isDIR64 entries)"

fun nonOverlapping :: "nat list \<Rightarrow> bool" where
  "nonOverlapping [] = True"
| "nonOverlapping (a # as) = ((\<forall>b\<in>set as. a + 8 \<le> b \<or> b + 8 \<le> a) \<and> nonOverlapping as)"

text \<open>
  \<open>loopHead delta relocData data r data'\<close>: the run of \<open>relocatePE relocData delta data\<close>
  reaches the head of the outer loop, that is a block-header boundary, with the bytes \<open>r\<close>
  of the relocation section still unread and the image bytes \<open>data'\<close>. The run is at
  the head when it starts; and when it reads the two words of a header and the inner
  loop runs to its end without error, it reaches every head that the run from the state
  after the block reaches.
\<close>

inductive loopHead :: "64 word \<Rightarrow> byte list \<Rightarrow> byte list \<Rightarrow> byte list \<Rightarrow> byte list \<Rightarrow> bool"
  for delta :: "64 word" where
  start: "loopHead delta r data r data"
| block: "binary_Read_uint32 r = Inr (pageRVA, r1) \<Longrightarrow>
          binary_Read_uint32 r1 = Inr (blockSize, r2) \<Longrightarrow>
          relocEntries 0 (unat ((blockSize - 8) div 2)) pageRVA delta r2 data = (None, r3, data2) \<Longrightarrow>
          loopHead delta r3 data2 r' data' \<Longrightarrow>
          loopHead delta r data r' data'"

code_pred loopHead .

section \<open>Reading a PE image\<close>

text \<open>
  \<open>peNewFile\<close> is \<open>pe.NewFile\<close> of Go's \<open>debug/pe\<close>, as far as \<open>relocateFdtdata\<close> reads
  its result, on the images of one plain kind: an image of at least 96 bytes that starts
  with a DOS header (\<open>MZ\<close>, the offset of the signature at \<open>0x3c\<close>) and has the signature
  (\<open>PE\<close> and two zero bytes), then a COFF file header of 20 bytes for amd64 or arm64 with no symbol table,
  then the optional header of PE32+ (magic \<open>0x20b\<close>) in its standard size of 240 bytes
  with 16 data directories, then the section headers of 40 bytes each, for sections with
  a short name (not starting with \<open>/\<close>), with raw data in the file and with no COFF
  relocations. For such an image the library returns the image base (the eight bytes at
  offset 24 of the optional header) and, for each section header, the name (the bytes up
  to the first zero byte) and \<open>Data()\<close>. \<open>Data()\<close> reads \<open>SizeOfRawData\<close> bytes at
  \<open>PointerToRawData\<close> from the image as it is when called and fails when they are not
  all there. For an image that is cut short inside these headers the library returns an
  error, here \<open>None\<close>. An image that is not of this kind is outside of \<open>peNewFile\<close>: it
  is \<open>None\<close> there too, whatever the library does, and nothing is stated at such an image.
\<close>

definition byteChar :: "byte \<Rightarrow> char" where
  "byteChar b = Char (bit b 0) (bit b 1) (bit b 2) (bit b 3) (bit b 4) (bit b 5) (bit b 6) (bit b 7)"

definition cstring :: "byte list \<Rightarrow> string" where
  "cstring bs = map byteChar (takeWhile (\<lambda>b. b \<noteq> 0) bs)"

definition readAt :: "byte list \<Rightarrow> nat \<Rightarrow> nat \<Rightarrow> byte list option" where
  "readAt img off n = (if off + n \<le> length img then Some (take n (drop off img)) else None)"

definition peSection :: "byte list \<Rightarrow> Section option" where
  "peSection sh =
     (if sh ! 0 = 0x2f \<or> getUint16 (drop 32 sh) \<noteq> 0 \<or> getUint32 (drop 20 sh) = 0 then None
      else Some \<lparr>Name = cstring (take 8 sh),
                 Data = (\<lambda>img. readAt img (unat (getUint32 (drop 20 sh)))
                                   (unat (getUint32 (drop 16 sh))))\<rparr>)"

fun peSections :: "nat \<Rightarrow> byte list \<Rightarrow> Section list option" where
  "peSections 0 tbl = Some []"
| "peSections (Suc n) tbl =
     (case readAt tbl 0 40 of
        None \<Rightarrow> None
      | Some sh \<Rightarrow>
          (case peSection sh of
             None \<Rightarrow> None
           | Some s \<Rightarrow>
               (case peSections n (drop 40 tbl) of
                  None \<Rightarrow> None
                | Some ss \<Rightarrow> Some (s # ss))))"

definition peNewFile :: "byte list \<Rightarrow> File option" where
  "peNewFile img =
     (if length img < 96 \<or> img ! 0 \<noteq> 0x4d \<or> img ! 1 \<noteq> 0x5a then None
      else (let signoff = unat (getUint32 (drop 0x3c img)) in
        if readAt img signoff 4 \<noteq> Some [0x50, 0x45, 0, 0] then None
        else (case readAt img (signoff + 4) 20 of
           None \<Rightarrow> None
         | Some fh \<Rightarrow>
             if (getUint16 fh \<noteq> 0x8664 \<and> getUint16 fh \<noteq> 0xaa64)
                \<or> getUint32 (drop 8 fh) \<noteq> 0 \<or> getUint16 (drop 16 fh) \<noteq> 240 then None
             else (case readAt img (signoff + 24) 240 of
                None \<Rightarrow> None
              | Some oh \<Rightarrow>
                  if getUint16 oh \<noteq> 0x20b \<or> getUint32 (drop 108 oh) \<noteq> 16 then None
                  else (case peSections (unat (getUint16 (drop 2 fh))) (drop (signoff + 264) img) of
                     None \<Rightarrow> None
                   | Some sections \<Rightarrow>
                       Some \<lparr>OptionalHeader = OptionalHeader64 (getUint64 (drop 24 oh)),
                             Sections = sections\<rparr>)))))"

section \<open>A small PE image in a blob\<close>

text \<open>
  \<open>sampleImage base\<close> is a PE32+ image of 436 bytes with the image base \<open>base\<close>: the
  DOS header (64 bytes), the signature at \<open>0x40\<close>, the file header at \<open>0x44\<close> (amd64, two
  sections), the optional header at \<open>0x58\<close> (the base relocation directory points to
  \<open>.reloc\<close>), the headers of \<open>.text\<close> and \<open>.reloc\<close> at \<open>0x148\<close>, the 16 bytes of \<open>.text\<close>
  at \<open>0x198\<close> and the 12 bytes of \<open>.reloc\<close> at \<open>0x1a8\<close>. Addresses in the image are file
  offsets. \<open>.text\<close> holds a pointer to itself, \<open>base + 0x198\<close>, and eight bytes that are
  no pointer; \<open>.reloc\<close> is one block for page 0 with a DIR64 entry for offset \<open>0x198\<close> and
  an entry of type 0 that pads the block.
\<close>

definition dosHeader :: "byte list" where
  "dosHeader = [0x4d, 0x5a] @ replicate 58 0 @ putUint32 0x40"

definition fileHeader :: "byte list" where
  "fileHeader = putUint16 0x8664 @ putUint16 2 @ putUint32 0 @ putUint32 0 @ putUint32 0
      @ putUint16 240 @ putUint16 0x22"

definition optionalHeader :: "64 word \<Rightarrow> byte list" where
  "optionalHeader base =
     putUint16 0x20b @ [0, 0] @ putUint32 0x10 @ putUint32 0xc @ putUint32 0
     @ putUint32 0x198 @ putUint32 0x198 @ putUint64 base
     @ putUint32 4 @ putUint32 4 @ replicate 12 0 @ putUint32 0
     @ putUint32 0x1b4 @ putUint32 0x198 @ putUint32 0 @ putUint16 10 @ putUint16 0
     @ replicate 32 0 @ putUint32 0 @ putUint32 16
     @ replicate 40 0 @ putUint32 0x1a8 @ putUint32 12 @ replicate 80 0"

definition sectionHeader :: "byte list \<Rightarrow> 32 word \<Rightarrow> 32 word \<Rightarrow> 32 word \<Rightarrow> byte list" where
  "sectionHeader name sz addr characteristics =
     name @ putUint32 sz @ putUint32 addr @ putUint32 sz @ putUint32 addr
     @ putUint32 0 @ putUint32 0 @ putUint16 0 @ putUint16 0 @ putUint32 characteristics"

definition sampleImage :: "64 word \<Rightarrow> byte list" where
  "sampleImage base =
     dosHeader @ [0x50, 0x45, 0, 0] @ fileHeader @ optionalHeader base
     @ sectionHeader [0x2e, 0x74, 0x65, 0x78, 0x74, 0, 0, 0] 0x10 0x198 0x60000020
     @ sectionHeader [0x2e, 0x72, 0x65, 0x6c, 0x6f, 0x63, 0, 0] 12 0x1a8 0x42000040
     @ putUint64 (base + 0x198) @ putUint64 0x1122334455667788
     @ block 0 12 [0xa198, 0]"

text \<open>
  The blob holds the image at offset \<open>0x1000\<close>, as in the comment above \<open>GetFdtInfo\<close>;
  the bytes before it (the device tree, which \<open>relocateFdtdata\<close> does not read) are left
  zero. \<open>sampleFdtLoad\<close> is the placement of the comment, with the size of the image.
\<close>

definition sampleBlob :: "64 word \<Rightarrow> byte list" where
  "sampleBlob base = replicate 4096 0 @ sampleImage base"

definition sampleFdtLoad :: FdtLoad where
  "sampleFdtLoad = \<lparr>Load = 0x800000, EntryStart = 0x805ac3, DataOffset = 0x1000, DataSize = 436\<rparr>"

section \<open>A device-tree library\<close>

text \<open>
  Modelled from the spec: the package \<open>pkg/dt\<close> (\<open>FDT\<close>, \<open>Node\<close>, \<open>Property\<close>,
  \<open>NodeByName\<close>, \<open>LookProperty\<close>, \<open>AsU64\<close>, \<open>AsU32\<close>), which \<open>getFdtInfo\<close> calls and
  which is not among the sources. The spec describes it as a library "exposing: node
  lookup by name (returns found/not-found), property lookup by name (returns
  found/not-found), and typed property decoding to unsigned 32-bit/64-bit big-endian
  integers (returns value or decode error)", used to "look up a top-level node" and
  "within it, look up a child node". A tree is a node with a name, properties and
  children; a lookup searches the children, respectively the properties, of a node for
  the first with the name; a property decodes when its value has exactly the width. How a
  blob or a file becomes a tree is left open (\<open>parse\<close>, \<open>readFile\<close>).
\<close>

datatype Property = Property (PropName: string) (PropValue: "byte list")

datatype Node = Node (NodeName: string) (Properties: "Property list") (Children: "Node list")

text \<open>Modelled from the spec: \<open>NodeByName\<close>, the lookup of a node by name below a node.\<close>

definition childByName :: "Node \<Rightarrow> string \<Rightarrow> Node option" where
  "childByName n name = find (\<lambda>c. NodeName c = name) (Children n)"

text \<open>Modelled from the spec: \<open>LookProperty\<close>, the lookup of a property by name.\<close>

definition propertyByName :: "Node \<Rightarrow> string \<Rightarrow> Property option" where
  "propertyByName n name = find (\<lambda>p. PropName p = name) (Properties n)"

text \<open>
  Modelled from the spec: \<open>AsU64\<close> and \<open>AsU32\<close>, the decoding of a property's value as
  a big-endian integer, or a decode error.
\<close>

definition propertyAsU64 :: "Property \<Rightarrow> string + 64 word" where
  "propertyAsU64 p =
     (if length (PropValue p) = 8 then Inr (getUint64 (rev (PropValue p)))
      else Inl ''property value is not 8 bytes'')"

definition propertyAsU32 :: "Property \<Rightarrow> string + 32 word" where
  "propertyAsU32 p =
     (if length (PropValue p) = 4 then Inr (getUint32 (rev (PropValue p)))
      else Inl ''property value is not 4 bytes'')"

text \<open>Modelled from the spec: the package as a whole, over trees.\<close>

definition treeLibrary :: "(byte list \<Rightarrow> string + Node) \<Rightarrow> (string \<Rightarrow> string + Node)
    \<Rightarrow> (Node, Node, Property) dt_package" where
  "treeLibrary parse readFile =
     \<lparr>ReadFDT = parse, ReadFile = readFile,
      FDT_NodeByName = childByName, Node_NodeByName = childByName,
      LookProperty = propertyByName, AsU64 = propertyAsU64, AsU32 = propertyAsU32\<rparr>"

text \<open>The tree of the comment above \<open>GetFdtInfo\<close> in the source.\<close>

definition tianocoreNode :: Node where
  "tianocoreNode = Node ''tianocore''
     [Property ''data-offset'' [0x00, 0x00, 0x10, 0x00],
      Property ''data-size'' [0x00, 0x01, 0x00, 0x00],
      Property ''entry-start'' [0x00, 0x00, 0x00, 0x00, 0x00, 0x80, 0x5a, 0xc3],
      Property ''load'' [0x00, 0x00, 0x00, 0x00, 0x00, 0x80, 0x00, 0x00]] []"

definition sampleTree :: Node where
  "sampleTree = Node [] [] [Node ''images'' [] [tianocoreNode]]"

section \<open>Facts about the byte orders\<close>

lemma bit_byte_at:
  "bit (push_bit k (ucast (ucast (drop_bit k (v::'a::len word)) :: byte)) :: 'a word) n
     \<longleftrightarrow> k \<le> n \<and> n < k + 8 \<and> bit v n"
  by (auto simp: bit_simps dest: bit_imp_le_length)

lemma bit_byte_at0:
  "bit (ucast (ucast (v::'a::len word) :: byte) :: 'a word) n \<longleftrightarrow> n < 8 \<and> bit v n"
  by (auto simp: bit_simps dest: bit_imp_le_length)

lemma get_put16: "getUint16 (putUint16 v @ r) = v"
  unfolding getUint16_def putUint16_def
  apply (rule bit_word_eqI)
  apply (simp add: bit_or_iff bit_byte_at bit_byte_at0)
  apply (auto)
  done

lemma get_put32: "getUint32 (putUint32 v @ r) = v"
  unfolding getUint32_def putUint32_def
  apply (rule bit_word_eqI)
  apply (simp add: bit_or_iff bit_byte_at bit_byte_at0)
  apply (auto)
  done

lemma get_put64: "getUint64 (putUint64 v @ r) = v"
  unfolding getUint64_def putUint64_def
  apply (rule bit_word_eqI)
  apply (simp add: bit_or_iff bit_byte_at bit_byte_at0)
  apply (auto)
  done

lemma low_half: "(ucast ((v :: 64 word) AND 0xffffffff) :: 32 word) = ucast v"
proof -
  have m: "(0xffffffff :: 64 word) = mask 32" by (simp add: mask_eq_exp_minus_1)
  show ?thesis unfolding m by (rule bit_word_eqI) (auto simp add: bit_simps)
qed

lemma putUint32_halves:
  "putUint32 (ucast (v AND 0xffffffff)) @ putUint32 (ucast (drop_bit 32 v)) = putUint64 (v :: 64 word)"
  unfolding putUint32_def putUint64_def low_half
  apply simp
  apply (intro conjI)
  apply (rule bit_word_eqI; auto simp add: bit_simps)+
  done

lemma length_putUint64 [simp]: "length (putUint64 v) = 8" by (simp add: putUint64_def)
lemma length_putUint32 [simp]: "length (putUint32 v) = 4" by (simp add: putUint32_def)
lemma length_putUint16 [simp]: "length (putUint16 v) = 2" by (simp add: putUint16_def)

lemma get_put64_nil: "getUint64 (putUint64 v) = v"
  using get_put64 [of v "[]"] by simp

lemma bit_push_byte:
  "bit (push_bit k (ucast (b :: byte)) :: 64 word) m \<longleftrightarrow> k \<le> m \<and> m < k + 8 \<and> m < 64 \<and> bit b (m - k)"
  by (auto simp: bit_simps dest: bit_imp_le_length)

lemma bit_ucast_byte:
  "bit (ucast (b :: byte) :: 64 word) m \<longleftrightarrow> m < 8 \<and> bit b m"
  by (auto simp: bit_simps dest: bit_imp_le_length)

lemma getUint64_bytes:
  "ucast (getUint64 b) = b ! 0" "ucast (drop_bit 8 (getUint64 b)) = b ! 1"
  "ucast (drop_bit 16 (getUint64 b)) = b ! 2" "ucast (drop_bit 24 (getUint64 b)) = b ! 3"
  "ucast (drop_bit 32 (getUint64 b)) = b ! 4" "ucast (drop_bit 40 (getUint64 b)) = b ! 5"
  "ucast (drop_bit 48 (getUint64 b)) = b ! 6" "ucast (drop_bit 56 (getUint64 b)) = b ! 7"
  unfolding getUint64_def
  by (rule bit_word_eqI; auto simp add: bit_ucast_iff bit_drop_bit_eq bit_or_iff bit_push_byte bit_ucast_byte dest: bit_imp_le_length)+

lemma put_get64: "8 \<le> length b \<Longrightarrow> putUint64 (getUint64 b) = take 8 b"
  unfolding putUint64_def getUint64_bytes
  by (rule nth_equalityI) (auto simp: less_Suc_eq numeral_eq_Suc nth_Cons split: nat.splits)

section \<open>The trampoline\<close>

lemma amd64_layout:
  "constructTrampoline_amd64 buf hobAddr entry =
     buf @ [0x48, 0x8b, 0x05, 0x19, 0x00, 0x00, 0x00, 0x48, 0x89, 0xc4,
            0x48, 0x8b, 0x05, 0x17, 0x00, 0x00, 0x00, 0x48, 0x89, 0xc1,
            0x48, 0x8b, 0x05, 0x15, 0x00, 0x00, 0x00, 0xff, 0xe0, 0x00, 0x00, 0x00]
         @ putUint64 (hobAddr + tmpStackTop) @ putUint64 hobAddr @ putUint64 entry"
  by (simp add: constructTrampoline_amd64_def appendUint64_def)

lemma arm64_layout:
  "constructTrampoline_arm64 buf hobAddr entry =
     buf @ putUint32 0x580000c4 @ putUint32 0x580000e0 @ putUint32 0xaa1f03e1
         @ putUint32 0x580000e2 @ putUint32 0x9100005f @ putUint32 0xd61f0080
         @ putUint64 entry @ putUint64 hobAddr @ putUint64 (hobAddr + tmpStackTop)"
  by (simp add: constructTrampoline_arm64_def appendUint32_def Let_def
       putUint32_halves [symmetric] del: append_assoc)

text \<open>
  Claim C7. For every hand-off-block address and entry address the trampoline synthesis
  appends to the buffer a block of bytes that does not depend on the buffer (two calls
  append the same bytes): 56 bytes on amd64, holding little-endian at offsets 32, 40 and 48
  the stack top \<open>hobAddr + tmpStackTop\<close>, the hand-off-block address and the entry; 48
  bytes on arm64, holding at offsets 24, 32 and 40 the entry, the hand-off-block address
  and the stack top.
\<close>

theorem constructTrampoline_layout:
  "length (constructTrampoline_amd64 buf hobAddr entry) = length buf + 56
   \<and> take (length buf) (constructTrampoline_amd64 buf hobAddr entry) = buf
   \<and> drop (length buf) (constructTrampoline_amd64 buf hobAddr entry)
       = constructTrampoline_amd64 [] hobAddr entry
   \<and> getUint64 (drop (length buf + 32) (constructTrampoline_amd64 buf hobAddr entry))
       = hobAddr + tmpStackTop
   \<and> getUint64 (drop (length buf + 40) (constructTrampoline_amd64 buf hobAddr entry)) = hobAddr
   \<and> getUint64 (drop (length buf + 48) (constructTrampoline_amd64 buf hobAddr entry)) = entry
   \<and> length (constructTrampoline_arm64 buf hobAddr entry) = length buf + 48
   \<and> take (length buf) (constructTrampoline_arm64 buf hobAddr entry) = buf
   \<and> drop (length buf) (constructTrampoline_arm64 buf hobAddr entry)
       = constructTrampoline_arm64 [] hobAddr entry
   \<and> getUint64 (drop (length buf + 24) (constructTrampoline_arm64 buf hobAddr entry)) = entry
   \<and> getUint64 (drop (length buf + 32) (constructTrampoline_arm64 buf hobAddr entry)) = hobAddr
   \<and> getUint64 (drop (length buf + 40) (constructTrampoline_arm64 buf hobAddr entry))
       = hobAddr + tmpStackTop"
  by (simp add: amd64_layout arm64_layout get_put64 get_put64_nil)

section \<open>Buffer alignment\<close>

text \<open>Signed and unsigned readings agree up to \<open>math.MaxInt\<close>.\<close>

lemma sint_below_MaxInt:
  fixes w :: "64 word"
  assumes "w \<le> MaxInt"
  shows "sint w = uint w"
proof -
  have "uint w \<le> 0x7FFFFFFFFFFFFFFF" using assms by (simp add: MaxInt_def word_le_def)
  then have "uint w < 2 ^ 63" by simp
  moreover have "- (2 ^ 63) \<le> uint w"
  proof -
    have "- (2 ^ 63) \<le> (0::int)" by simp
    then show ?thesis using uint_ge_0 [of w] by (rule order_trans)
  qed
  ultimately have "signed_take_bit 63 (uint w) = uint w"
    by (rule signed_take_bit_int_eq_self [rotated])
  then show ?thesis by (simp add: sint_uint)
qed

lemma sint_nonneg_iff:
  fixes w :: "64 word"
  shows "0 \<le> sint w \<longleftrightarrow> w \<le> MaxInt"
proof
  assume nn: "0 \<le> sint w"
  have lt: "sint w < 2 ^ 63" using sint_lt [of w] by simp
  have "uint w < 2 ^ 64" using uint_lt2p [of w] by simp
  then have "take_bit 64 (uint w) = uint w"
    by (intro take_bit_int_eq_self) simp_all
  then have "uint w = take_bit 64 (sint w)"
    by (simp add: sint_uint take_bit_signed_take_bit)
  also have "\<dots> = sint w"
  proof (rule take_bit_int_eq_self)
    show "0 \<le> sint w" by (rule nn)
    have "(2::int) ^ 63 \<le> 2 ^ 64" by simp
    with lt show "sint w < 2 ^ 64" by (rule less_le_trans)
  qed
  finally have "uint w < 2 ^ 63" using lt by simp
  then show "w \<le> MaxInt" by (simp add: MaxInt_def word_le_def)
next
  assume "w \<le> MaxInt"
  then show "0 \<le> sint w" by (simp add: sint_below_MaxInt)
qed

lemma sless_pos_below_MaxInt:
  fixes w :: "64 word"
  assumes "w \<le> MaxInt"
  shows "0 <s w \<longleftrightarrow> w \<noteq> 0"
proof -
  have "0 <s w \<longleftrightarrow> 0 < uint w"
    by (simp add: word_sless_alt sint_below_MaxInt [OF assms])
  also have "\<dots> \<longleftrightarrow> w \<noteq> 0"
    using uint_ge_0 [of w] by (auto simp: uint_0_iff order_less_le)
  finally show ?thesis .
qed

lemma alignHOBLength_equal:
  "expectLen \<le> MaxInt \<Longrightarrow> alignHOBLength mem expectLen expectLen buf = (None, buf)"
  by (simp add: alignHOBLength_def)

lemma alignHOBLength_positive_pad:
  assumes lt: "bufLen < expectLen" and mx: "expectLen \<le> MaxInt"
  shows "alignHOBLength mem expectLen bufLen buf =
     (if maxAlloc < unat expectLen - unat bufLen \<or> \<not> mem buf (unat expectLen - unat bufLen)
      then (Some Panic, buf)
      else (None, buf @ replicate (unat expectLen - unat bufLen) 0))"
proof -
  have le: "bufLen \<le> expectLen" using lt by simp
  have d: "expectLen - bufLen \<le> expectLen" using le by (simp add: word_sub_le)
  then have dm: "expectLen - bufLen \<le> MaxInt" using mx by simp
  have u: "unat (expectLen - bufLen) = unat expectLen - unat bufLen"
    using le by (simp add: unat_sub)
  have "expectLen - bufLen \<noteq> 0" using lt by simp
  then have "0 <s expectLen - bufLen" using sless_pos_below_MaxInt [OF dm] by simp
  then show ?thesis using le mx u
    by (simp add: alignHOBLength_def Let_def not_less [symmetric])
qed

lemma alignHOBLength_error:
  "expectLen < bufLen \<or> MaxInt < expectLen \<Longrightarrow>
     alignHOBLength mem expectLen bufLen buf = (Some ErrAlignPadRange, buf)"
  by (auto simp: alignHOBLength_def)

lemma of_nat_length_word:
  assumes "length (buf :: byte list) < 2 ^ 63"
  shows "unat (of_nat (length buf) :: 64 word) = length buf"
proof -
  have "(2::nat) ^ 63 \<le> 2 ^ 64" by simp
  with assms have "length buf < 2 ^ 64" by (rule less_le_trans)
  then show ?thesis by (intro of_nat_inverse [OF refl]) simp
qed

text \<open>
  Claim C9 says that whenever \<open>E\<close> is neither below \<open>L\<close>, nor above \<open>math.MaxInt\<close>, nor
  equal to \<open>L\<close>, the buffer gets \<open>E - L\<close> zero bytes. For the empty buffer and
  \<open>E = math.MaxInt\<close> the pad of \<open>2^63 - 1\<close> bytes is above \<open>maxAlloc\<close>, and the call ends
  in the panic of \<open>make\<close>, even on a machine that never runs out of memory.
\<close>

theorem alignHOBLength_by_length_counterexample:
  "alignHOBLength (\<lambda>buf n. True) MaxInt 0 [] = (Some Panic, [])
   \<and> \<not> unat MaxInt < length ([] :: byte list) \<and> \<not> MaxInt < MaxInt
   \<and> unat MaxInt \<noteq> length ([] :: byte list)"
  using alignHOBLength_positive_pad [of 0 MaxInt "\<lambda>buf n. True" "[]"]
  by (simp add: MaxInt_def maxAlloc_def)

text \<open>
  Claim C9, amended. Let the buffer hold \<open>L\<close> bytes and let the caller pass
  \<open>bufLen = L\<close>. If the expected length \<open>E\<close> is below \<open>L\<close> or above \<open>math.MaxInt\<close>,
  \<open>alignHOBLength\<close> returns \<open>ErrAlignPadRange\<close> and the buffer is as before; if \<open>E = L\<close>
  (and not above \<open>math.MaxInt\<close>) it returns \<open>nil\<close> and the buffer is as before; otherwise,
  when the pad \<open>E - L\<close> is at most \<open>maxAlloc\<close> (\<open>2^48\<close> bytes) and the runtime has the
  memory for it, it returns \<open>nil\<close> and the buffer is the old content followed by \<open>E - L\<close>
  zero bytes, so its length is \<open>E\<close> and each byte from index \<open>L\<close> on is zero; and when
  the pad is larger or the memory is not there, the call does not return (a panic or a
  fatal error) and the buffer is as before.
\<close>

theorem alignHOBLength_by_length:
  assumes len: "length buf < 2 ^ 63" and arg: "bufLen = of_nat (length buf)"
  shows "(unat expectLen < length buf \<or> MaxInt < expectLen \<longrightarrow>
            alignHOBLength mem expectLen bufLen buf = (Some ErrAlignPadRange, buf))
       \<and> (unat expectLen = length buf \<longrightarrow>
            alignHOBLength mem expectLen bufLen buf = (None, buf))
       \<and> (length buf < unat expectLen \<and> expectLen \<le> MaxInt
            \<and> unat expectLen - length buf \<le> maxAlloc
            \<and> mem buf (unat expectLen - length buf) \<longrightarrow>
            alignHOBLength mem expectLen bufLen buf
              = (None, buf @ replicate (unat expectLen - length buf) 0)
            \<and> length (snd (alignHOBLength mem expectLen bufLen buf)) = unat expectLen
            \<and> (\<forall>i. length buf \<le> i \<and> i < unat expectLen \<longrightarrow>
                  snd (alignHOBLength mem expectLen bufLen buf) ! i = 0))
       \<and> (length buf < unat expectLen \<and> expectLen \<le> MaxInt
            \<and> (maxAlloc < unat expectLen - length buf
                \<or> \<not> mem buf (unat expectLen - length buf)) \<longrightarrow>
            alignHOBLength mem expectLen bufLen buf = (Some Panic, buf))"
proof -
  have ub: "unat bufLen = length buf" using of_nat_length_word [OF len] arg by simp
  have bm: "bufLen \<le> MaxInt"
    using len ub by (simp add: MaxInt_def word_le_nat_alt)
  have 1: "alignHOBLength mem expectLen bufLen buf = (Some ErrAlignPadRange, buf)"
    if "unat expectLen < length buf \<or> MaxInt < expectLen"
    using that ub by (intro alignHOBLength_error) (auto simp: word_less_nat_alt)
  have 2: "alignHOBLength mem expectLen bufLen buf = (None, buf)" if "unat expectLen = length buf"
  proof -
    have "expectLen = bufLen" using that ub by (simp add: word_unat_eq_iff)
    then show ?thesis using alignHOBLength_equal [of bufLen mem buf] bm by simp
  qed
  have 3: "alignHOBLength mem expectLen bufLen buf =
     (if maxAlloc < unat expectLen - length buf \<or> \<not> mem buf (unat expectLen - length buf)
      then (Some Panic, buf)
      else (None, buf @ replicate (unat expectLen - length buf) 0))"
    if "length buf < unat expectLen" "expectLen \<le> MaxInt"
    using that ub alignHOBLength_positive_pad [of bufLen expectLen mem buf]
    by (simp add: word_less_nat_alt)
  show ?thesis using 1 2 3 by (auto simp: nth_append)
qed

text \<open>
  The buffer of ten bytes of the spec: sixteen expected bytes give six zero bytes, five
  expected bytes the error, ten nothing; here the runtime has memory for pads up to a
  hundred bytes, and \<open>E = 200\<close> ends in a panic.
\<close>

theorem alignHOBLength_by_length_witness:
  "alignHOBLength (\<lambda>buf n. n \<le> 100) 16 10 [1, 2, 3, 4, 5, 6, 7, 8, 9, 10]
     = (None, [1, 2, 3, 4, 5, 6, 7, 8, 9, 10, 0, 0, 0, 0, 0, 0])
   \<and> alignHOBLength (\<lambda>buf n. n \<le> 100) 5 10 [1, 2, 3, 4, 5, 6, 7, 8, 9, 10]
     = (Some ErrAlignPadRange, [1, 2, 3, 4, 5, 6, 7, 8, 9, 10])
   \<and> alignHOBLength (\<lambda>buf n. n \<le> 100) 10 10 [1, 2, 3, 4, 5, 6, 7, 8, 9, 10]
     = (None, [1, 2, 3, 4, 5, 6, 7, 8, 9, 10])
   \<and> alignHOBLength (\<lambda>buf n. n \<le> 100) 200 10 [1, 2, 3, 4, 5, 6, 7, 8, 9, 10]
     = (Some Panic, [1, 2, 3, 4, 5, 6, 7, 8, 9, 10])"
proof -
  have r: "replicate 6 (0::byte) = [0, 0, 0, 0, 0, 0]" by (simp add: numeral_eq_Suc)
  show ?thesis
    using alignHOBLength_by_length [where buf = "[1, 2, 3, 4, 5, 6, 7, 8, 9, 10]"
        and bufLen = 10 and expectLen = 16 and mem = "\<lambda>buf n. n \<le> 100"]
      alignHOBLength_by_length [where buf = "[1, 2, 3, 4, 5, 6, 7, 8, 9, 10]"
        and bufLen = 10 and expectLen = 5 and mem = "\<lambda>buf n. n \<le> 100"]
      alignHOBLength_by_length [where buf = "[1, 2, 3, 4, 5, 6, 7, 8, 9, 10]"
        and bufLen = 10 and expectLen = 10 and mem = "\<lambda>buf n. n \<le> 100"]
      alignHOBLength_by_length [where buf = "[1, 2, 3, 4, 5, 6, 7, 8, 9, 10]"
        and bufLen = 10 and expectLen = 200 and mem = "\<lambda>buf n. n \<le> 100"]
    by (simp add: MaxInt_def maxAlloc_def r)
qed

text \<open>
  Claim C10 says that for every \<open>bufLen \<le> E \<le> math.MaxInt\<close> the buffer grows by
  \<open>E - bufLen\<close> bytes. \<open>bufLen\<close> is an \<open>int\<close>: for \<open>bufLen = -1\<close> and \<open>E = 5\<close> the
  comparison \<open>expectLen < uint64(bufLen)\<close> holds and the call is refused with
  \<open>ErrAlignPadRange\<close>. And for \<open>bufLen = 0\<close> and \<open>E = math.MaxInt\<close> the pad is above
  \<open>maxAlloc\<close> and the call ends in the panic of \<open>make\<close>.
\<close>

theorem alignHOBLength_pad_from_argument_counterexample:
  "alignHOBLength (\<lambda>buf n. True) 5 (- 1) [1, 2, 3] = (Some ErrAlignPadRange, [1, 2, 3])
   \<and> sint (- 1 :: 64 word) \<le> uint (5 :: 64 word) \<and> (5 :: 64 word) \<le> MaxInt
   \<and> alignHOBLength (\<lambda>buf n. True) MaxInt 0 [1, 2, 3] = (Some Panic, [1, 2, 3])
   \<and> sint (0 :: 64 word) \<le> uint MaxInt"
  using alignHOBLength_positive_pad [of 0 MaxInt "\<lambda>buf n. True" "[1, 2, 3]"]
    alignHOBLength_error [of 5 "- 1" "\<lambda>buf n. True" "[1, 2, 3]"]
  by (simp add: MaxInt_def maxAlloc_def)

text \<open>
  Claim C10, amended. The pad is computed from the argument \<open>bufLen\<close>, not from the
  length of the buffer: for every claimed length \<open>bufLen\<close> that is not negative and every
  \<open>E\<close> with \<open>bufLen \<le> E \<le> math.MaxInt\<close>, when the pad \<open>E - bufLen\<close> is at most \<open>maxAlloc\<close>
  (\<open>2^48\<close> bytes) and the runtime has the memory for it, the call returns \<open>nil\<close> and the
  buffer grows by exactly \<open>E - bufLen\<close> zero bytes; its final length is \<open>E\<close> if and only
  if \<open>bufLen\<close> was the buffer's true length. When the pad is larger or the memory is not
  there the call does not return, and a negative \<open>bufLen\<close> is refused with
  \<open>ErrAlignPadRange\<close>; in both cases the buffer is as before.
\<close>

theorem alignHOBLength_pad_from_argument:
  "(0 \<le> sint bufLen \<and> sint bufLen \<le> uint expectLen \<and> expectLen \<le> MaxInt
      \<and> unat expectLen - unat bufLen \<le> maxAlloc \<and> mem buf (unat expectLen - unat bufLen) \<longrightarrow>
        alignHOBLength mem expectLen bufLen buf
           = (None, buf @ replicate (unat expectLen - unat bufLen) 0)
      \<and> length (snd (alignHOBLength mem expectLen bufLen buf))
           = length buf + (unat expectLen - unat bufLen)
      \<and> (length (snd (alignHOBLength mem expectLen bufLen buf)) = unat expectLen
            \<longleftrightarrow> unat bufLen = length buf))
   \<and> (0 \<le> sint bufLen \<and> sint bufLen < uint expectLen \<and> expectLen \<le> MaxInt
      \<and> (maxAlloc < unat expectLen - unat bufLen \<or> \<not> mem buf (unat expectLen - unat bufLen)) \<longrightarrow>
        alignHOBLength mem expectLen bufLen buf = (Some Panic, buf))
   \<and> (sint bufLen < 0 \<and> expectLen \<le> MaxInt \<longrightarrow>
        alignHOBLength mem expectLen bufLen buf = (Some ErrAlignPadRange, buf))"
proof (intro conjI impI)
  assume h: "0 \<le> sint bufLen \<and> sint bufLen \<le> uint expectLen \<and> expectLen \<le> MaxInt
      \<and> unat expectLen - unat bufLen \<le> maxAlloc \<and> mem buf (unat expectLen - unat bufLen)"
  then have bm: "bufLen \<le> MaxInt" by (simp add: sint_nonneg_iff)
  have "uint bufLen \<le> uint expectLen" using h sint_below_MaxInt [OF bm] by simp
  then have ble: "bufLen \<le> expectLen" by (simp add: word_le_def)
  have ule: "unat bufLen \<le> unat expectLen" using ble by (simp add: word_le_nat_alt)
  have pad: "alignHOBLength mem expectLen bufLen buf
           = (None, buf @ replicate (unat expectLen - unat bufLen) 0)"
  proof (cases "bufLen = expectLen")
    case True
    then show ?thesis using h alignHOBLength_equal [of expectLen mem buf] by simp
  next
    case False
    then have "bufLen < expectLen" using ble by simp
    then show ?thesis using h alignHOBLength_positive_pad [of bufLen expectLen mem buf] by simp
  qed
  show "alignHOBLength mem expectLen bufLen buf
           = (None, buf @ replicate (unat expectLen - unat bufLen) 0)" by (rule pad)
  show "length (snd (alignHOBLength mem expectLen bufLen buf))
           = length buf + (unat expectLen - unat bufLen)" by (simp add: pad)
  show "length (snd (alignHOBLength mem expectLen bufLen buf)) = unat expectLen
            \<longleftrightarrow> unat bufLen = length buf" using ule by (auto simp: pad)
next
  assume h: "0 \<le> sint bufLen \<and> sint bufLen < uint expectLen \<and> expectLen \<le> MaxInt
      \<and> (maxAlloc < unat expectLen - unat bufLen \<or> \<not> mem buf (unat expectLen - unat bufLen))"
  then have bm: "bufLen \<le> MaxInt" by (simp add: sint_nonneg_iff)
  have "uint bufLen < uint expectLen" using h sint_below_MaxInt [OF bm] by simp
  then have "bufLen < expectLen" by (simp add: word_less_def)
  then show "alignHOBLength mem expectLen bufLen buf = (Some Panic, buf)"
    using h alignHOBLength_positive_pad [of bufLen expectLen mem buf] by auto
next
  assume "sint bufLen < 0 \<and> expectLen \<le> MaxInt"
  then show "alignHOBLength mem expectLen bufLen buf = (Some ErrAlignPadRange, buf)"
    using sint_nonneg_iff [of bufLen] by (auto simp: alignHOBLength_def)
qed

text \<open>
  A claimed length of ten for a buffer of three bytes: sixteen expected bytes give six
  zero bytes and a buffer of nine bytes. Here the runtime has memory for pads up to a
  hundred bytes; \<open>E = 200\<close> ends in a panic and \<open>bufLen = -1\<close> is refused.
\<close>

theorem alignHOBLength_pad_from_argument_witness:
  "alignHOBLength (\<lambda>buf n. n \<le> 100) 16 10 [1, 2, 3] = (None, [1, 2, 3, 0, 0, 0, 0, 0, 0])
   \<and> length (snd (alignHOBLength (\<lambda>buf n. n \<le> 100) 16 10 [1, 2, 3])) = 9
   \<and> alignHOBLength (\<lambda>buf n. n \<le> 100) 200 10 [1, 2, 3] = (Some Panic, [1, 2, 3])
   \<and> alignHOBLength (\<lambda>buf n. n \<le> 100) 5 (- 1) [1, 2, 3] = (Some ErrAlignPadRange, [1, 2, 3])"
proof -
  have r: "replicate 6 (0::byte) = [0, 0, 0, 0, 0, 0]" by (simp add: numeral_eq_Suc)
  show ?thesis
    using alignHOBLength_pad_from_argument [where bufLen = 10 and expectLen = 16
        and buf = "[1, 2, 3]" and mem = "\<lambda>buf n. n \<le> 100"]
      alignHOBLength_pad_from_argument [where bufLen = 10 and expectLen = 200
        and buf = "[1, 2, 3]" and mem = "\<lambda>buf n. n \<le> 100"]
      alignHOBLength_pad_from_argument [where bufLen = "- 1" and expectLen = 5
        and buf = "[1, 2, 3]" and mem = "\<lambda>buf n. n \<le> 100"]
    by (simp add: MaxInt_def maxAlloc_def r)
qed

section \<open>The relocation walk\<close>

subsection \<open>Steps of the inner loop\<close>

text \<open>
  One turn of the inner loop on a stream that starts with an encoded entry: an entry of
  another type is passed over, a DIR64 entry within the image is applied. A list of such
  entries is consumed as \<open>applyFixups\<close> says.
\<close>

lemma relocEntries_done:
  "\<not> i < n \<Longrightarrow> relocEntries i n pageRVA delta r data = (None, r, data)"
  by (simp add: relocEntries.simps)

lemma relocEntries_short_read:
  "i < n \<Longrightarrow> length r < 2 \<Longrightarrow>
     relocEntries i n pageRVA delta r data = (Some ErrPeFailToGetEntry, r, data)"
  by (subst relocEntries.simps) (simp add: binary_Read_uint16_def)

lemma binary_Read_uint16_put: "binary_Read_uint16 (putUint16 v @ r) = Inr (v, r)"
  using get_put16 [of v "[]"] by (simp add: binary_Read_uint16_def putUint16_def)

lemma binary_Read_uint32_put: "binary_Read_uint32 (putUint32 v @ r) = Inr (v, r)"
  using get_put32 [of v "[]"] by (simp add: binary_Read_uint32_def putUint32_def)

lemma length_storeUint64: "a + 8 \<le> length data \<Longrightarrow> length (storeUint64 data a v) = length data"
  by (simp add: storeUint64_def)

lemma relocEntries_skip:
  "i < n \<Longrightarrow> \<not> isDIR64 entry \<Longrightarrow>
     relocEntries i n pageRVA delta (putUint16 entry @ r) data
       = relocEntries (i + 1) n pageRVA delta r data"
  by (subst relocEntries.simps) (simp add: binary_Read_uint16_put isDIR64_def)

lemma of_nat_length_32:
  "length (data :: byte list) < 2 ^ 32 \<Longrightarrow> unat (of_nat (length data) :: 32 word) = length data"
  by (intro of_nat_inverse [OF refl]) simp

lemma relocEntries_fixup:
  assumes "i < n" "isDIR64 entry" "length data < 2 ^ 32" "relocAddr pageRVA entry + 8 \<le> length data"
  shows "relocEntries i n pageRVA delta (putUint16 entry @ r) data
       = relocEntries (i + 1) n pageRVA delta r
           (storeUint64 data (relocAddr pageRVA entry)
              (getUint64 (drop (relocAddr pageRVA entry) data) + delta))"
proof -
  have "unat (pageRVA + ucast (entry AND 0xfff)) < unat (of_nat (length data) :: 32 word)"
    using assms(3,4) by (simp add: of_nat_length_32 relocAddr_def)
  then have g: "\<not> (of_nat (length data) :: 32 word) \<le> pageRVA + ucast (entry AND 0xfff)"
    by (simp add: word_le_nat_alt)
  have p: "\<not> length data - unat (pageRVA + ucast (entry AND 0xfff)) < 8"
    using assms(4) unfolding relocAddr_def by arith
  show ?thesis
    using assms(1,2) g p
    by (subst relocEntries.simps) (simp add: binary_Read_uint16_put isDIR64_def relocAddr_def)
qed

lemma length_applyFixups:
  "\<forall>e\<in>set entries. isDIR64 e \<longrightarrow> relocAddr pageRVA e + 8 \<le> length data \<Longrightarrow>
     length (applyFixups pageRVA delta entries data) = length data"
  by (induction entries arbitrary: data) (simp_all add: length_storeUint64)

lemma relocEntries_consume:
  assumes "length data < 2 ^ 32"
    and "\<forall>e\<in>set entries. isDIR64 e \<longrightarrow> relocAddr pageRVA e + 8 \<le> length data"
    and "i + length entries \<le> n"
  shows "relocEntries i n pageRVA delta (concat (map putUint16 entries) @ r) data
       = relocEntries (i + length entries) n pageRVA delta r (applyFixups pageRVA delta entries data)"
  using assms
proof (induction entries arbitrary: i data)
  case Nil
  then show ?case by simp
next
  case (Cons e es)
  have i: "i < n" using Cons.prems(3) by simp
  show ?case
  proof (cases "isDIR64 e")
    case False
    have "relocEntries i n pageRVA delta (concat (map putUint16 (e # es)) @ r) data
        = relocEntries (i + 1) n pageRVA delta (concat (map putUint16 es) @ r) data"
      using relocEntries_skip [OF i False] by simp
    also have "\<dots> = relocEntries (i + 1 + length es) n pageRVA delta r
                        (applyFixups pageRVA delta es data)"
      using Cons.prems by (intro Cons.IH) simp_all
    finally show ?thesis using False by simp
  next
    case True
    let ?a = "relocAddr pageRVA e"
    let ?data1 = "storeUint64 data ?a (getUint64 (drop ?a data) + delta)"
    have inb: "?a + 8 \<le> length data" using Cons.prems(2) True by simp
    have len1: "length ?data1 = length data" by (rule length_storeUint64 [OF inb])
    have "relocEntries i n pageRVA delta (concat (map putUint16 (e # es)) @ r) data
        = relocEntries (i + 1) n pageRVA delta (concat (map putUint16 es) @ r) ?data1"
      using relocEntries_fixup [OF i True Cons.prems(1) inb] by simp
    also have "\<dots> = relocEntries (i + 1 + length es) n pageRVA delta r
                        (applyFixups pageRVA delta es ?data1)"
      using Cons.prems by (intro Cons.IH) (simp_all add: len1)
    finally show ?thesis using True by simp
  qed
qed

subsection \<open>The outer loop\<close>

lemma relocBlocks_empty: "relocBlocks [] delta data = (None, data)"
  by (subst relocBlocks.simps) (simp add: binary_Read_uint32_def)

lemma relocBlocks_short_pageRVA:
  "r \<noteq> [] \<Longrightarrow> length r < 4 \<Longrightarrow> relocBlocks r delta data = (Some ErrPeFailToGetPageRVA, data)"
  by (subst relocBlocks.simps) (simp add: binary_Read_uint32_def)

lemma relocBlocks_short_blockSize:
  "4 \<le> length r \<Longrightarrow> length r < 8 \<Longrightarrow>
     relocBlocks r delta data = (Some ErrPeFailToGetBlockSize, data)"
  by (subst relocBlocks.simps) (auto simp: binary_Read_uint32_def)

lemma relocBlocks_block:
  assumes "binary_Read_uint32 r = Inr (pageRVA, r1)" "binary_Read_uint32 r1 = Inr (blockSize, r2)"
  shows "relocBlocks r delta data =
     (case relocEntries 0 (unat ((blockSize - 8) div 2)) pageRVA delta r2 data of
        (Some e, r3, data') \<Rightarrow> (Some e, data')
      | (None, r3, data') \<Rightarrow> relocBlocks r3 delta data')"
  using assms by (subst relocBlocks.simps) simp

lemma loopHead_continues:
  "loopHead delta relocData data r data1 \<Longrightarrow>
     relocBlocks relocData delta data = relocBlocks r delta data1"
proof (induction rule: loopHead.induct)
  case (start r data)
  show ?case by simp
next
  case (block r pageRVA r1 blockSize r2 data r3 data2 r' data')
  then show ?case by (simp add: relocBlocks_block)
qed

lemma relocBlocks_success_loopHead:
  "relocBlocks r delta data = (None, data') \<Longrightarrow> loopHead delta r data [] data'"
proof (induction r delta data rule: relocBlocks.induct)
  case (1 r delta data)
  show ?case
  proof (cases "binary_Read_uint32 r")
    case (Inl err)
    with "1.prems" have "err = EOF" "data' = data"
      by (subst (asm) relocBlocks.simps; simp split: if_splits)+
    moreover from Inl \<open>err = EOF\<close> have "r = []"
      by (simp add: binary_Read_uint32_def split: if_splits)
    ultimately show ?thesis by (simp add: loopHead.start)
  next
    case (Inr a)
    obtain pageRVA r1 where a: "a = (pageRVA, r1)" by (cases a)
    show ?thesis
    proof (cases "binary_Read_uint32 r1")
      case (Inl err)
      with "1.prems" Inr a show ?thesis by (subst (asm) relocBlocks.simps) simp
    next
      case r1: (Inr b)
      obtain blockSize r2 where b: "b = (blockSize, r2)" by (cases b)
      obtain e r3 data2 where
        w: "relocEntries 0 (unat ((blockSize - 8) div 2)) pageRVA delta r2 data = (e, r3, data2)"
        by (cases "relocEntries 0 (unat ((blockSize - 8) div 2)) pageRVA delta r2 data") auto
      have rb: "relocBlocks r delta data =
          (case (e, r3, data2) of (Some e, r3, data') \<Rightarrow> (Some e, data')
           | (None, r3, data') \<Rightarrow> relocBlocks r3 delta data')"
        using relocBlocks_block [of r pageRVA r1 blockSize r2 delta data] Inr a r1 b w by simp
      show ?thesis
      proof (cases e)
        case (Some err)
        with rb "1.prems" show ?thesis by simp
      next
        case None
        with rb "1.prems" have rest: "relocBlocks r3 delta data2 = (None, data')" by simp
        have "loopHead delta r3 data2 [] data'"
          using "1.IH" Inr a r1 b w None rest by auto
        then show ?thesis
          using loopHead.block [of r pageRVA r1 blockSize r2 delta data r3 data2 "[]" data']
            Inr a r1 b w None by simp
      qed
    qed
  qed
qed

subsection \<open>Where the fixups land\<close>

text \<open>
  A store changes the eight bytes at its address and nothing else; so the fixups of a
  block leave every byte outside their targets alone, and a target that no other target
  overlaps ends with its value plus \<open>delta\<close>.
\<close>

lemma get_store_same:
  "a + 8 \<le> length data \<Longrightarrow> getUint64 (drop a (storeUint64 data a v)) = v"
  by (simp add: storeUint64_def get_put64)

lemma nth_store_other:
  assumes "a + 8 \<le> length data" "k < a \<or> a + 8 \<le> k"
  shows "storeUint64 data a v ! k = data ! k"
proof (cases "k < a")
  case True
  then show ?thesis using assms(1) by (simp add: storeUint64_def nth_append)
next
  case False
  then have k: "a + 8 \<le> k" using assms(2) by simp
  then have "\<not> k < a" "\<not> k - a < 8" "k - a - 8 = k - (a + 8)" by arith+
  then have "storeUint64 data a v ! k = drop (a + 8) data ! (k - (a + 8))"
    using assms(1) by (simp add: storeUint64_def nth_append)
  also have "\<dots> = data ! k" using k assms(1) by simp
  finally show ?thesis .
qed

lemma getUint64_cong: "(\<And>j. j < 8 \<Longrightarrow> b ! j = b' ! j) \<Longrightarrow> getUint64 b = getUint64 b'"
  by (simp add: getUint64_def)

lemma getUint64_drop_cong:
  assumes "b + 8 \<le> length data" "length data' = length data"
    and "\<And>k. b \<le> k \<Longrightarrow> k < b + 8 \<Longrightarrow> data' ! k = data ! k"
  shows "getUint64 (drop b data') = getUint64 (drop b data)"
proof (rule getUint64_cong)
  fix j :: nat assume "j < 8"
  then show "drop b data' ! j = drop b data ! j" using assms by simp
qed

lemma get_store_other:
  assumes "a + 8 \<le> length data" "b + 8 \<le> length data" "a + 8 \<le> b \<or> b + 8 \<le> a"
  shows "getUint64 (drop b (storeUint64 data a v)) = getUint64 (drop b data)"
proof (rule getUint64_drop_cong [OF assms(2) length_storeUint64 [OF assms(1)]])
  fix k assume "b \<le> k" "k < b + 8"
  then have "k < a \<or> a + 8 \<le> k" using assms(3) by arith
  then show "storeUint64 data a v ! k = data ! k" by (rule nth_store_other [OF assms(1)])
qed

lemma applyFixups_frame:
  assumes "\<forall>e\<in>set entries. isDIR64 e \<longrightarrow> relocAddr pageRVA e + 8 \<le> length data"
    and "\<forall>e\<in>set entries. isDIR64 e \<longrightarrow> k < relocAddr pageRVA e \<or> relocAddr pageRVA e + 8 \<le> k"
  shows "applyFixups pageRVA delta entries data ! k = data ! k"
  using assms
proof (induction entries arbitrary: data)
  case Nil
  show ?case by simp
next
  case (Cons e es)
  show ?case
  proof (cases "isDIR64 e")
    case False
    then show ?thesis using Cons.prems by (simp add: Cons.IH)
  next
    case True
    let ?a = "relocAddr pageRVA e"
    let ?data1 = "storeUint64 data ?a (getUint64 (drop ?a data) + delta)"
    have inb: "?a + 8 \<le> length data" using Cons.prems(1) True by simp
    have len1: "length ?data1 = length data" by (rule length_storeUint64 [OF inb])
    have "applyFixups pageRVA delta (e # es) data ! k = applyFixups pageRVA delta es ?data1 ! k"
      using True by simp
    also have "\<dots> = ?data1 ! k" using Cons.prems by (intro Cons.IH) (simp_all add: len1)
    also have "\<dots> = data ! k" using Cons.prems(2) True by (intro nth_store_other [OF inb]) simp
    finally show ?thesis .
  qed
qed

lemma applyFixups_noDIR64:
  "\<forall>e\<in>set entries. \<not> isDIR64 e \<Longrightarrow> applyFixups pageRVA delta entries data = data"
  by (induction entries) simp_all

lemma applyFixups_range_frame:
  assumes inb: "\<forall>e\<in>set entries. isDIR64 e \<longrightarrow> relocAddr pageRVA e + 8 \<le> length data"
    and b: "b + 8 \<le> length data"
    and dis: "\<forall>a\<in>set (targets pageRVA entries). a + 8 \<le> b \<or> b + 8 \<le> a"
  shows "getUint64 (drop b (applyFixups pageRVA delta entries data)) = getUint64 (drop b data)"
proof (rule getUint64_drop_cong [OF b length_applyFixups [OF inb]])
  fix k assume k: "b \<le> k" "k < b + 8"
  have "\<forall>e\<in>set entries. isDIR64 e \<longrightarrow> k < relocAddr pageRVA e \<or> relocAddr pageRVA e + 8 \<le> k"
  proof (intro ballI impI)
    fix e assume "e \<in> set entries" "isDIR64 e"
    then have "relocAddr pageRVA e \<in> set (targets pageRVA entries)" by (simp add: targets_def)
    with dis have "relocAddr pageRVA e + 8 \<le> b \<or> b + 8 \<le> relocAddr pageRVA e" by blast
    with k show "k < relocAddr pageRVA e \<or> relocAddr pageRVA e + 8 \<le> k" by arith
  qed
  then show "applyFixups pageRVA delta entries data ! k = data ! k"
    by (rule applyFixups_frame [OF inb])
qed

lemma applyFixups_target:
  assumes "\<forall>e\<in>set entries. isDIR64 e \<longrightarrow> relocAddr pageRVA e + 8 \<le> length data"
    and "nonOverlapping (targets pageRVA entries)"
    and "e \<in> set entries" "isDIR64 e"
  shows "getUint64 (drop (relocAddr pageRVA e) (applyFixups pageRVA delta entries data))
       = getUint64 (drop (relocAddr pageRVA e) data) + delta"
  using assms
proof (induction entries arbitrary: data)
  case Nil
  then show ?case by simp
next
  case (Cons e' es)
  let ?b = "relocAddr pageRVA e"
  show ?case
  proof (cases "isDIR64 e'")
    case False
    with Cons.prems have "e \<in> set es" by auto
    moreover have "nonOverlapping (targets pageRVA es)" using Cons.prems(2) False by (simp add: targets_def)
    ultimately show ?thesis using Cons.prems False by (simp add: Cons.IH)
  next
    case True
    let ?a = "relocAddr pageRVA e'"
    let ?data1 = "storeUint64 data ?a (getUint64 (drop ?a data) + delta)"
    have inb: "?a + 8 \<le> length data" using Cons.prems(1) True by simp
    have len1: "length ?data1 = length data" by (rule length_storeUint64 [OF inb])
    have inb1: "\<forall>x\<in>set es. isDIR64 x \<longrightarrow> relocAddr pageRVA x + 8 \<le> length ?data1"
      using Cons.prems(1) by (simp add: len1)
    have dis: "\<forall>c\<in>set (targets pageRVA es). ?a + 8 \<le> c \<or> c + 8 \<le> ?a"
      and no: "nonOverlapping (targets pageRVA es)"
      using Cons.prems(2) True by (simp_all add: targets_def)
    have unfold: "applyFixups pageRVA delta (e' # es) data = applyFixups pageRVA delta es ?data1"
      using True by simp
    show ?thesis
    proof (cases "e \<in> set es")
      case True
      then have "?b \<in> set (targets pageRVA es)" using Cons.prems(4) by (simp add: targets_def)
      with dis have ab: "?a + 8 \<le> ?b \<or> ?b + 8 \<le> ?a" by blast
      have b: "?b + 8 \<le> length data" using Cons.prems(1,3,4) by auto
      have "getUint64 (drop ?b (applyFixups pageRVA delta es ?data1)) = getUint64 (drop ?b ?data1) + delta"
        using inb1 no True Cons.prems(4) by (rule Cons.IH)
      also have "getUint64 (drop ?b ?data1) = getUint64 (drop ?b data)"
        by (rule get_store_other [OF inb b ab])
      finally show ?thesis by (simp only: unfold)
    next
      case False
      then have e: "e = e'" using Cons.prems(3) by simp
      have "getUint64 (drop ?a (applyFixups pageRVA delta es ?data1)) = getUint64 (drop ?a ?data1)"
        using inb dis by (intro applyFixups_range_frame [OF inb1]) (auto simp: len1)
      also have "\<dots> = getUint64 (drop ?a data) + delta" by (rule get_store_same [OF inb])
      finally show ?thesis by (simp only: unfold e)
    qed
  qed
qed

subsection \<open>A delta of zero\<close>

lemma store_same_value:
  assumes "a + 8 \<le> length data"
  shows "storeUint64 data a (getUint64 (drop a data)) = data"
proof -
  have "putUint64 (getUint64 (drop a data)) = take 8 (drop a data)"
    using assms by (intro put_get64) simp
  moreover have "drop (a + 8) data = drop 8 (drop a data)" by (simp add: add.commute)
  ultimately have "storeUint64 data a (getUint64 (drop a data))
      = take a data @ (take 8 (drop a data) @ drop 8 (drop a data))"
    by (simp only: storeUint64_def)
  also have "\<dots> = data" by (simp only: append_take_drop_id)
  finally show ?thesis .
qed

lemma relocEntries_delta_zero:
  "relocEntries i n pageRVA delta r data = (e, r', data') \<Longrightarrow> delta = 0 \<Longrightarrow> data' = data"
proof (induction i n pageRVA delta r data rule: relocEntries.induct)
  case (1 i n pageRVA delta r data)
  show ?case
  proof (cases "i < n")
    case False
    with "1.prems" show ?thesis by (simp add: relocEntries.simps)
  next
    case True
    show ?thesis
    proof (cases "binary_Read_uint16 r")
      case (Inl err)
      with True "1.prems" show ?thesis by (simp add: relocEntries.simps)
    next
      case (Inr p)
      obtain entry r1 where p: "p = (entry, r1)" by (cases p)
      let ?a = "unat (pageRVA + ucast (entry AND 0xfff))"
      have same: "\<not> length (drop ?a data) < 8 \<Longrightarrow>
          storeUint64 data ?a (getUint64 (drop ?a data) + 0) = data"
        using store_same_value [of ?a data] by simp
      from "1.prems" True Inr p "1.IH" [of "(entry, r1)" entry r1] same show ?thesis
        by (subst (asm) relocEntries.simps) (auto split: if_splits)
    qed
  qed
qed

subsection \<open>Running the walk on given bytes\<close>

text \<open>The equations that evaluate \<open>relocatePE\<close> on a concrete stream and image.\<close>

lemmas walk_eval = relocatePE_def relocBlocks.simps relocEntries.simps
  binary_Read_uint32_def binary_Read_uint16_def getUint32_def getUint16_def getUint64_def
  putUint16_def putUint32_def putUint64_def storeUint64_def IMAGE_REL_BASED_DIR64_def

text \<open>An inner loop that ends without error has read two bytes for each of its turns.\<close>

lemma relocEntries_success_consumes:
  "relocEntries i n pageRVA delta r data = (None, r', data') \<Longrightarrow>
     length r = length r' + 2 * (n - i)"
proof (induction i n pageRVA delta r data rule: relocEntries.induct)
  case (1 i n pageRVA delta r data)
  show ?case
  proof (cases "i < n")
    case False
    with "1.prems" show ?thesis by (simp add: relocEntries.simps)
  next
    case True
    show ?thesis
    proof (cases "binary_Read_uint16 r")
      case (Inl err)
      with True "1.prems" show ?thesis by (simp add: relocEntries.simps)
    next
      case (Inr p)
      obtain entry r1 where p: "p = (entry, r1)" by (cases p)
      have len: "length r1 + 2 = length r"
        using binary_Read_uint16_length [of r entry r1] Inr p by simp
      have n: "2 * (n - i) = 2 + 2 * (n - (i + 1))" using True by arith
      from "1.prems" True Inr p "1.IH" [of "(entry, r1)" entry r1] len n show ?thesis
        by (subst (asm) relocEntries.simps) (auto split: if_splits)
    qed
  qed
qed

lemma relocBlocks_entries_error:
  assumes "binary_Read_uint32 r = Inr (pageRVA, r1)" "binary_Read_uint32 r1 = Inr (blockSize, r2)"
    and "relocEntries 0 (unat ((blockSize - 8) div 2)) pageRVA delta r2 data = (Some e, r3, data')"
  shows "relocBlocks r delta data = (Some e, data')"
  using assms by (simp add: relocBlocks_block)

lemma zero_header_count: "unat (((0::32 word) - 8) div 2) = 2147483644"
  by simp

lemma relocBlocks_zero_header:
  assumes "length rest < 4294967288"
  shows "fst (relocBlocks (putUint32 0 @ putUint32 0 @ rest) delta data) \<noteq> None"
proof -
  obtain e r3 data' where w: "relocEntries 0 2147483644 0 delta rest data = (e, r3, data')"
    by (cases "relocEntries 0 2147483644 0 delta rest data") auto
  have "e \<noteq> None"
  proof
    assume "e = None"
    then have "length rest = length r3 + 2 * (2147483644 - 0)"
      using relocEntries_success_consumes [of 0 2147483644 0 delta rest data r3 data'] w by simp
    then show False using assms by simp
  qed
  then obtain err where "e = Some err" by auto
  then have "relocBlocks (putUint32 0 @ putUint32 0 @ rest) delta data = (Some err, data')"
    using w zero_header_count
    by (intro relocBlocks_entries_error [where pageRVA = 0 and blockSize = 0 and ?r1.0 = "putUint32 0 @ rest" and ?r2.0 = rest and ?r3.0 = r3])
       (simp_all add: binary_Read_uint32_put)
  then show ?thesis by simp
qed

lemma relocBlocks_zero_header_short:
  assumes "length rest < 2"
  shows "relocBlocks (putUint32 0 @ putUint32 0 @ rest) delta data = (Some ErrPeFailToGetEntry, data)"
proof -
  have "relocEntries 0 2147483644 0 delta rest data = (Some ErrPeFailToGetEntry, rest, data)"
    using assms by (intro relocEntries_short_read) simp_all
  then show ?thesis
    using zero_header_count
    by (intro relocBlocks_entries_error [where pageRVA = 0 and blockSize = 0 and ?r1.0 = "putUint32 0 @ rest" and ?r2.0 = rest and ?r3.0 = rest])
       (simp_all add: binary_Read_uint32_put)
qed

text \<open>
  Claim C2 says that a block header with \<open>page_rva = 0\<close> and \<open>block_size = 0\<close> ends the
  directory successfully. It does not: the stream that consists of this header alone
  makes the walk fail with \<open>ErrPeFailToGetEntry\<close>.
\<close>

theorem relocatePE_zero_header_counterexample:
  "relocatePE (putUint32 0 @ putUint32 0) 0 [] = (Some ErrPeFailToGetEntry, [])"
  by (simp add: walk_eval)

text \<open>
  Claim C2, amended. \<open>relocatePE\<close> has no terminator. At a block-header boundary a
  header with \<open>page_rva = 0\<close> and \<open>block_size = 0\<close> is a header like any other: the entry
  count is \<open>(0 - 8) / 2 = 0x7FFFFFFC\<close> in \<open>uint32\<close> arithmetic and the walk goes on reading
  entries. Unless \<open>0x7FFFFFFC\<close> entries (4294967288 bytes) follow the header the walk
  does not end with success, and when fewer than two bytes follow it ends with
  \<open>ErrPeFailToGetEntry\<close>, the image as it was at the header. Only the end of the stream
  at a block-header boundary ends the walk with success: the walk returns \<open>nil\<close> if and
  only if it reaches a block-header boundary with no byte of the stream left.
\<close>

theorem relocatePE_zero_header_no_terminator:
  "(\<forall>r data1. loopHead delta relocData data (putUint32 0 @ putUint32 0 @ r) data1 \<longrightarrow>
       (length r < 4294967288 \<longrightarrow> fst (relocatePE relocData delta data) \<noteq> None)
     \<and> (length r < 2 \<longrightarrow> relocatePE relocData delta data = (Some ErrPeFailToGetEntry, data1)))
   \<and> (\<forall>data1. relocatePE relocData delta data = (None, data1)
         \<longleftrightarrow> loopHead delta relocData data [] data1)"
proof (intro conjI allI impI)
  fix r data1
  assume h: "loopHead delta relocData data (putUint32 0 @ putUint32 0 @ r) data1"
  show "fst (relocatePE relocData delta data) \<noteq> None" if "length r < 4294967288"
    using that h relocBlocks_zero_header [of r delta data1]
    by (simp add: relocatePE_def loopHead_continues)
  show "relocatePE relocData delta data = (Some ErrPeFailToGetEntry, data1)" if "length r < 2"
    using that h by (simp add: relocatePE_def loopHead_continues relocBlocks_zero_header_short)
next
  fix data1
  show "relocatePE relocData delta data = (None, data1)
         \<longleftrightarrow> loopHead delta relocData data [] data1"
  proof
    assume "relocatePE relocData delta data = (None, data1)"
    then show "loopHead delta relocData data [] data1"
      by (simp add: relocatePE_def relocBlocks_success_loopHead)
  next
    assume "loopHead delta relocData data [] data1"
    then show "relocatePE relocData delta data = (None, data1)"
      by (simp add: relocatePE_def loopHead_continues relocBlocks_empty)
  qed
qed

text \<open>
  The header followed by one byte, the header followed by two entries, and the empty
  stream; and a walk that ends with success has reached a boundary with nothing left.
\<close>

theorem relocatePE_zero_header_no_terminator_witness:
  "relocatePE (putUint32 0 @ putUint32 0 @ [1]) 5 [7] = (Some ErrPeFailToGetEntry, [7])
   \<and> fst (relocatePE (putUint32 0 @ putUint32 0 @ [0, 0, 0, 0]) 5 [7]) \<noteq> None
   \<and> relocatePE [] 5 [7] = (None, [7])
   \<and> loopHead 5 [] [7] [] [7]"
  using relocatePE_zero_header_no_terminator [where relocData = "putUint32 0 @ putUint32 0 @ [1]" and delta = 5 and data = "[7]"]
    relocatePE_zero_header_no_terminator [where relocData = "putUint32 0 @ putUint32 0 @ [0, 0, 0, 0]" and delta = 5 and data = "[7]"]
    relocatePE_zero_header_no_terminator [where relocData = "[]" and delta = 5 and data = "[7]"]
    loopHead.start [of 5 "putUint32 0 @ putUint32 0 @ [1]" "[7]"]
    loopHead.start [of 5 "putUint32 0 @ putUint32 0 @ [0, 0, 0, 0]" "[7]"]
    loopHead.start [of 5 "[]" "[7]"]
  by (simp del: append_assoc)

text \<open>
  Claim C1. The claim asks for \<open>ErrPeRelocOutOfBound\<close> whenever \<open>addr + 8\<close> exceeds the
  length of the image. The guard of \<open>relocatePE\<close> is \<open>relocAddr >= uint32(len(data))\<close>,
  so an address in the last seven bytes of the image passes it, and the read of eight
  bytes that follows panics. Here the image has four bytes and the one DIR64 entry points
  to offset 0: the run ends in a panic, not in \<open>ErrPeRelocOutOfBound\<close>.
\<close>

theorem relocatePE_short_target_panics:
  "relocatePE [0, 0, 0, 0, 10, 0, 0, 0, 0x00, 0xA0] 1 [1, 2, 3, 4] = (Some Panic, [1, 2, 3, 4])"
  by (simp add: walk_eval)

subsection \<open>Whole and truncated blocks\<close>

lemma relocBlocks_whole_block:
  assumes "length data < 2 ^ 32"
    and "unat ((blockSize - 8) div 2) = length entries"
    and "\<forall>e\<in>set entries. isDIR64 e \<longrightarrow> relocAddr pageRVA e + 8 \<le> length data"
  shows "relocBlocks (block pageRVA blockSize entries @ rest) delta data
       = relocBlocks rest delta (applyFixups pageRVA delta entries data)"
proof -
  have "relocEntries 0 (length entries) pageRVA delta (concat (map putUint16 entries) @ rest) data
      = relocEntries (0 + length entries) (length entries) pageRVA delta rest
          (applyFixups pageRVA delta entries data)"
    using assms(1,3) by (intro relocEntries_consume) simp_all
  then have w: "relocEntries 0 (unat ((blockSize - 8) div 2)) pageRVA delta
         (concat (map putUint16 entries) @ rest) data
      = (None, rest, applyFixups pageRVA delta entries data)"
    using assms(2) by (simp add: relocEntries_done)
  have "relocBlocks (putUint32 pageRVA @ putUint32 blockSize @ concat (map putUint16 entries) @ rest)
          delta data
      = (case (None :: error option, rest, applyFixups pageRVA delta entries data) of
           (Some e, r3, data') \<Rightarrow> (Some e, data')
         | (None, r3, data') \<Rightarrow> relocBlocks r3 delta data')"
    using w
    by (subst relocBlocks_block [where pageRVA = pageRVA and blockSize = blockSize
          and ?r1.0 = "putUint32 blockSize @ concat (map putUint16 entries) @ rest"
          and ?r2.0 = "concat (map putUint16 entries) @ rest"])
       (simp_all add: binary_Read_uint32_put)
  then show ?thesis by (simp add: block_def)
qed

lemma relocBlocks_truncated_block:
  assumes "length data < 2 ^ 32"
    and "length entries < unat ((blockSize - 8) div 2)"
    and "\<forall>e\<in>set entries. isDIR64 e \<longrightarrow> relocAddr pageRVA e + 8 \<le> length data"
    and "length tail < 2"
  shows "relocBlocks (block pageRVA blockSize entries @ tail) delta data
       = (Some ErrPeFailToGetEntry, applyFixups pageRVA delta entries data)"
proof -
  let ?n = "unat ((blockSize - 8) div 2)"
  have "relocEntries 0 ?n pageRVA delta (concat (map putUint16 entries) @ tail) data
      = relocEntries (0 + length entries) ?n pageRVA delta tail
          (applyFixups pageRVA delta entries data)"
    using assms(1,2,3) by (intro relocEntries_consume) simp_all
  also have "\<dots> = (Some ErrPeFailToGetEntry, tail, applyFixups pageRVA delta entries data)"
    using assms(2,4) by (intro relocEntries_short_read) simp_all
  finally have w: "relocEntries 0 ?n pageRVA delta (concat (map putUint16 entries) @ tail) data
      = (Some ErrPeFailToGetEntry, tail, applyFixups pageRVA delta entries data)" .
  have "relocBlocks (putUint32 pageRVA @ putUint32 blockSize @ concat (map putUint16 entries) @ tail)
          delta data = (Some ErrPeFailToGetEntry, applyFixups pageRVA delta entries data)"
    using w
    by (intro relocBlocks_entries_error [where pageRVA = pageRVA and blockSize = blockSize
          and ?r1.0 = "putUint32 blockSize @ concat (map putUint16 entries) @ tail"
          and ?r2.0 = "concat (map putUint16 entries) @ tail" and ?r3.0 = tail])
       (simp_all add: binary_Read_uint32_put)
  then show ?thesis by (simp add: block_def)
qed

text \<open>
  Claim C6. The walk returns success exactly when it reaches a block-header boundary
  with the relocation stream exhausted. At a block-header boundary, one to three bytes
  left give \<open>ErrPeFailToGetPageRVA\<close> and four to seven bytes left give
  \<open>ErrPeFailToGetBlockSize\<close> (the two errors of a malformed header); a block that holds
  fewer entries than its header announces, followed by less than the two bytes of an
  entry, gives \<open>ErrPeFailToGetEntry\<close>. (The entries read before the short read are taken
  to be within the image, since an entry outside of it ends the walk earlier.)
\<close>

theorem relocatePE_end_of_stream:
  "(fst (relocatePE relocData delta data) = None
      \<longleftrightarrow> (\<exists>data'. loopHead delta relocData data [] data'))
   \<and> (\<forall>r data1. loopHead delta relocData data r data1 \<longrightarrow>
         (r = [] \<longrightarrow> relocatePE relocData delta data = (None, data1))
       \<and> (r \<noteq> [] \<and> length r < 4 \<longrightarrow>
            relocatePE relocData delta data = (Some ErrPeFailToGetPageRVA, data1))
       \<and> (4 \<le> length r \<and> length r < 8 \<longrightarrow>
            relocatePE relocData delta data = (Some ErrPeFailToGetBlockSize, data1))
       \<and> (\<forall>pageRVA blockSize entries tail.
            r = block pageRVA blockSize entries @ tail
            \<and> length entries < unat ((blockSize - 8) div 2) \<and> length tail < 2
            \<and> length data1 < 2 ^ 32
            \<and> (\<forall>e\<in>set entries. isDIR64 e \<longrightarrow> relocAddr pageRVA e + 8 \<le> length data1)
            \<longrightarrow> relocatePE relocData delta data
                  = (Some ErrPeFailToGetEntry, applyFixups pageRVA delta entries data1)))"
proof (intro conjI allI impI)
  show "fst (relocatePE relocData delta data) = None
      \<longleftrightarrow> (\<exists>data'. loopHead delta relocData data [] data')"
  proof
    assume "fst (relocatePE relocData delta data) = None"
    then obtain data' where "relocBlocks relocData delta data = (None, data')"
      by (cases "relocBlocks relocData delta data") (simp add: relocatePE_def)
    then have "loopHead delta relocData data [] data'"
      by (rule relocBlocks_success_loopHead)
    then show "\<exists>data'. loopHead delta relocData data [] data'" ..
  next
    assume "\<exists>data'. loopHead delta relocData data [] data'"
    then obtain data' where "loopHead delta relocData data [] data'" ..
    then show "fst (relocatePE relocData delta data) = None"
      by (simp add: relocatePE_def loopHead_continues relocBlocks_empty)
  qed
next
  fix r data1 assume "loopHead delta relocData data r data1" "r = []"
  then show "relocatePE relocData delta data = (None, data1)"
    by (simp add: relocatePE_def loopHead_continues relocBlocks_empty)
next
  fix r data1 assume "loopHead delta relocData data r data1" "r \<noteq> [] \<and> length r < 4"
  then show "relocatePE relocData delta data = (Some ErrPeFailToGetPageRVA, data1)"
    by (simp add: relocatePE_def loopHead_continues relocBlocks_short_pageRVA)
next
  fix r data1 assume "loopHead delta relocData data r data1" "4 \<le> length r \<and> length r < 8"
  then show "relocatePE relocData delta data = (Some ErrPeFailToGetBlockSize, data1)"
    by (simp add: relocatePE_def loopHead_continues relocBlocks_short_blockSize)
next
  fix r data1 pageRVA blockSize entries tail
  assume "loopHead delta relocData data r data1"
    and "r = block pageRVA blockSize entries @ tail
            \<and> length entries < unat ((blockSize - 8) div 2) \<and> length tail < 2
            \<and> length data1 < 2 ^ 32
            \<and> (\<forall>e\<in>set entries. isDIR64 e \<longrightarrow> relocAddr pageRVA e + 8 \<le> length data1)"
  then show "relocatePE relocData delta data
                  = (Some ErrPeFailToGetEntry, applyFixups pageRVA delta entries data1)"
    by (simp add: relocatePE_def loopHead_continues relocBlocks_truncated_block)
qed

text \<open>
  The stream of one block without entries ends with success; three or five stray bytes
  after it, and a block of two announced entries cut after three bytes, give the three
  errors.
\<close>

theorem relocatePE_end_of_stream_witness:
  "relocatePE [0, 0, 0, 0, 8, 0, 0, 0] 0 [] = (None, [])
   \<and> relocatePE [0, 0, 0, 0, 8, 0, 0, 0, 1, 2, 3] 0 [] = (Some ErrPeFailToGetPageRVA, [])
   \<and> relocatePE [0, 0, 0, 0, 8, 0, 0, 0, 1, 2, 3, 4, 5] 0 [] = (Some ErrPeFailToGetBlockSize, [])
   \<and> relocatePE (block 0 12 [0] @ [9]) 0 [] = (Some ErrPeFailToGetEntry, [])"
proof -
  have step: "loopHead 0 (([0, 0, 0, 0, 8, 0, 0, 0] :: byte list) @ r) [] r []" for r
  proof (rule loopHead.block)
    show "binary_Read_uint32 ([0, 0, 0, 0, 8, 0, 0, 0] @ r) = Inr (0, [8, 0, 0, 0] @ r)"
      by (simp add: binary_Read_uint32_def getUint32_def)
    show "binary_Read_uint32 ([8, 0, 0, 0] @ r) = Inr (8, r)"
      by (simp add: binary_Read_uint32_def getUint32_def)
    show "relocEntries 0 (unat (((8::32 word) - 8) div 2)) 0 0 r [] = (None, r, [])"
      by (simp add: relocEntries.simps)
    show "loopHead 0 r [] r []" by (rule loopHead.start)
  qed
  have 1: "relocatePE [0, 0, 0, 0, 8, 0, 0, 0] 0 [] = (None, [])"
    using relocatePE_end_of_stream [where relocData = "[0, 0, 0, 0, 8, 0, 0, 0]" and delta = 0 and data = "[]"] step [of "[]"]
    by simp
  have 2: "relocatePE [0, 0, 0, 0, 8, 0, 0, 0, 1, 2, 3] 0 [] = (Some ErrPeFailToGetPageRVA, [])"
    using relocatePE_end_of_stream [where relocData = "[0, 0, 0, 0, 8, 0, 0, 0, 1, 2, 3]" and delta = 0 and data = "[]"]
      step [of "[1, 2, 3]"]
    by (simp only: append.simps) (drule conjunct2, drule spec [of _ "[1, 2, 3]"], simp)
  have 3: "relocatePE [0, 0, 0, 0, 8, 0, 0, 0, 1, 2, 3, 4, 5] 0 []
             = (Some ErrPeFailToGetBlockSize, [])"
    using relocatePE_end_of_stream [where relocData = "[0, 0, 0, 0, 8, 0, 0, 0, 1, 2, 3, 4, 5]" and delta = 0 and data = "[]"]
      step [of "[1, 2, 3, 4, 5]"]
    by (simp only: append.simps) (drule conjunct2, drule spec [of _ "[1, 2, 3, 4, 5]"], simp)
  have 4: "relocatePE (block 0 12 [0] @ [9]) 0 [] = (Some ErrPeFailToGetEntry, [])"
    using relocatePE_end_of_stream [where relocData = "block 0 12 [0] @ [9]" and delta = 0 and data = "[]"]
      loopHead.start [of 0 "block 0 12 [0] @ [9]" "[]"]
    apply -
    apply (drule conjunct2, drule spec [of _ "block 0 12 [0] @ [9]"], drule spec [of _ "[]"])
    apply (drule mp, assumption)
    apply (drule conjunct2)+
    apply (drule spec [of _ 0], drule spec [of _ 12], drule spec [of _ "[0]"], drule spec [of _ "[9]"])
    apply (simp add: isDIR64_def IMAGE_REL_BASED_DIR64_def)
    done
  from 1 2 3 4 show ?thesis by simp
qed

text \<open>
  Claim C4 says that after the walk every DIR64 target holds its original value plus
  \<open>D\<close>. A block may name a target twice, and then the target gets \<open>D\<close> twice: with two
  DIR64 entries for offset 0 and \<open>D = 1\<close> the value 0 becomes 2. And in an image of
  \<open>2^32\<close> bytes the guard compares with \<open>uint32(len(data)) = 0\<close> and refuses every
  address.
\<close>

theorem relocatePE_counts_each_entry_counterexample:
  "relocatePE (block 0 12 [0xA000, 0xA000]) 1 [0, 0, 0, 0, 0, 0, 0, 0]
     = (None, [2, 0, 0, 0, 0, 0, 0, 0])
   \<and> isDIR64 0xA000 \<and> relocAddr 0 0xA000 = 0
   \<and> getUint64 [2, 0, 0, 0, 0, 0, 0, 0] \<noteq> getUint64 [0, 0, 0, 0, 0, 0, 0, 0] + 1
   \<and> relocatePE (block 0 10 [0xA000]) 1 (replicate 4294967296 0)
     = (Some ErrPeRelocOutOfBound, replicate 4294967296 0)"
  by (simp add: block_def walk_eval isDIR64_def relocAddr_def)

text \<open>
  Claim C4, amended. Let the image be shorter than \<open>2^32\<close> bytes, let a block announce
  exactly its entries, and let the DIR64 entries point to eight-byte ranges within the
  image of which no two overlap. Then the walk runs through the block without error (and
  goes on with whatever follows it), the image keeps its length, every DIR64 target
  holds its original little-endian value plus \<open>delta\<close> modulo \<open>2^64\<close>, and every byte
  outside the DIR64 targets is as before; entries of any other type change nothing and
  stop nothing.
\<close>

theorem relocatePE_block_fixups:
  assumes len: "length data < 2 ^ 32"
    and size: "unat ((blockSize - 8) div 2) = length entries"
    and inb: "\<forall>e\<in>set entries. isDIR64 e \<longrightarrow> relocAddr pageRVA e + 8 \<le> length data"
    and dis: "nonOverlapping (targets pageRVA entries)"
  shows "\<exists>data'.
      relocatePE (block pageRVA blockSize entries) delta data = (None, data')
    \<and> (\<forall>rest. relocatePE (block pageRVA blockSize entries @ rest) delta data
                 = relocatePE rest delta data')
    \<and> length data' = length data
    \<and> (\<forall>e\<in>set entries. isDIR64 e \<longrightarrow>
          getUint64 (drop (relocAddr pageRVA e) data')
            = getUint64 (drop (relocAddr pageRVA e) data) + delta)
    \<and> (\<forall>k. (\<forall>e\<in>set entries. isDIR64 e \<longrightarrow>
                k < relocAddr pageRVA e \<or> relocAddr pageRVA e + 8 \<le> k)
            \<longrightarrow> data' ! k = data ! k)
    \<and> ((\<forall>e\<in>set entries. \<not> isDIR64 e) \<longrightarrow> data' = data)"
proof (intro exI [of _ "applyFixups pageRVA delta entries data"] conjI allI ballI impI)
  show "relocatePE (block pageRVA blockSize entries) delta data
      = (None, applyFixups pageRVA delta entries data)"
    using relocBlocks_whole_block [OF len size inb, of "[]" delta]
    by (simp add: relocatePE_def relocBlocks_empty)
  show "relocatePE (block pageRVA blockSize entries @ rest) delta data
      = relocatePE rest delta (applyFixups pageRVA delta entries data)" for rest
    using relocBlocks_whole_block [OF len size inb, of rest delta]
    by (simp add: relocatePE_def)
  show "length (applyFixups pageRVA delta entries data) = length data"
    by (rule length_applyFixups [OF inb])
  show "getUint64 (drop (relocAddr pageRVA e) (applyFixups pageRVA delta entries data))
      = getUint64 (drop (relocAddr pageRVA e) data) + delta"
    if "e \<in> set entries" "isDIR64 e" for e
    by (rule applyFixups_target [OF inb dis that])
  show "applyFixups pageRVA delta entries data ! k = data ! k"
    if "\<forall>e\<in>set entries. isDIR64 e \<longrightarrow> k < relocAddr pageRVA e \<or> relocAddr pageRVA e + 8 \<le> k"
    for k
    by (rule applyFixups_frame [OF inb that])
  show "applyFixups pageRVA delta entries data = data" if "\<forall>e\<in>set entries. \<not> isDIR64 e"
    by (rule applyFixups_noDIR64 [OF that])
qed

text \<open>
  A block with DIR64 entries for offsets 8 and 0 and an entry of type 0 between them, and
  \<open>delta = -1\<close>: 0x100 becomes 0xFF, 1 becomes 0, the seventeenth byte stays.
\<close>

theorem relocatePE_block_fixups_witness:
  "relocatePE (block 0 14 [0xA008, 0x0003, 0xA000]) 0xFFFFFFFFFFFFFFFF
      [1, 0, 0, 0, 0, 0, 0, 0, 0, 1, 0, 0, 0, 0, 0, 0, 7]
     = (None, [0, 0, 0, 0, 0, 0, 0, 0, 0xFF, 0, 0, 0, 0, 0, 0, 0, 7])"
proof -
  have r: "relocAddr 0 0xA008 = 8" "relocAddr 0 3 = 3" "relocAddr 0 0xA000 = 0"
    "isDIR64 0xA008" "\<not> isDIR64 3" "isDIR64 0xA000"
    by (simp_all add: relocAddr_def isDIR64_def IMAGE_REL_BASED_DIR64_def)
  have "\<exists>data'. relocatePE (block 0 14 [0xA008, 0x0003, 0xA000]) 0xFFFFFFFFFFFFFFFF
      [1, 0, 0, 0, 0, 0, 0, 0, 0, 1, 0, 0, 0, 0, 0, 0, 7] = (None, data') \<and>
      length data' = 17 \<and> getUint64 (drop 8 data') = 0xFF \<and> getUint64 data' = 0 \<and> data' ! 16 = 7"
    using relocatePE_block_fixups [of "[1, 0, 0, 0, 0, 0, 0, 0, 0, 1, 0, 0, 0, 0, 0, 0, 7]" 14
      "[0xA008, 0x0003, 0xA000]" 0 "0xFFFFFFFFFFFFFFFF"]
    apply (simp add: r targets_def getUint64_def)
    apply (erule exE)
    apply (rule_tac x = data' in exI)
    apply (elim conjE)
    apply (drule_tac x = 16 in spec)
    apply simp
    done
  then show ?thesis by (simp add: block_def walk_eval)
qed

section \<open>Relocating the image of a FIT blob\<close>

subsection \<open>The small image, parsed and relocated\<close>

lemma zeros_unfold: "replicate (numeral n) (0 :: byte) = 0 # replicate (pred_numeral n) 0"
  by (simp add: numeral_eq_Suc)

lemma sampleImage_801000:
  "sampleImage 0x801000 =
    [77, 90, 0, 0, 0, 0, 0, 0, 0, 0, 0, 0, 0, 0, 0, 0, 0, 0, 0, 0, 0, 0, 0, 0,
  0, 0, 0, 0, 0, 0, 0, 0, 0, 0, 0, 0, 0, 0, 0, 0, 0, 0, 0, 0, 0, 0, 0, 0, 0,
  0, 0, 0, 0, 0, 0, 0, 0, 0, 0, 0, 64, 0, 0, 0, 80, 69, 0, 0, 100, 134, 2,
  0, 0, 0, 0, 0, 0, 0, 0, 0, 0, 0, 0, 0, 240, 0, 34, 0, 11, 2, 0, 0, 16, 0,
  0, 0, 12, 0, 0, 0, 0, 0, 0, 0, 152, 1, 0, 0, 152, 1, 0, 0, 0, 16, 128, 0,
  0, 0, 0, 0, 4, 0, 0, 0, 4, 0, 0, 0, 0, 0, 0, 0, 0, 0, 0, 0, 0, 0, 0, 0, 0,
  0, 0, 0, 180, 1, 0, 0, 152, 1, 0, 0, 0, 0, 0, 0, 10, 0, 0, 0, 0, 0, 0, 0,
  0, 0, 0, 0, 0, 0, 0, 0, 0, 0, 0, 0, 0, 0, 0, 0, 0, 0, 0, 0, 0, 0, 0, 0, 0,
  0, 0, 0, 0, 0, 0, 0, 16, 0, 0, 0, 0, 0, 0, 0, 0, 0, 0, 0, 0, 0, 0, 0, 0,
  0, 0, 0, 0, 0, 0, 0, 0, 0, 0, 0, 0, 0, 0, 0, 0, 0, 0, 0, 0, 0, 0, 0, 0, 0,
  0, 0, 168, 1, 0, 0, 12, 0, 0, 0, 0, 0, 0, 0, 0, 0, 0, 0, 0, 0, 0, 0, 0, 0,
  0, 0, 0, 0, 0, 0, 0, 0, 0, 0, 0, 0, 0, 0, 0, 0, 0, 0, 0, 0, 0, 0, 0, 0, 0,
  0, 0, 0, 0, 0, 0, 0, 0, 0, 0, 0, 0, 0, 0, 0, 0, 0, 0, 0, 0, 0, 0, 0, 0, 0,
  0, 0, 0, 0, 0, 0, 0, 0, 0, 0, 0, 0, 0, 0, 0, 0, 46, 116, 101, 120, 116, 0,
  0, 0, 16, 0, 0, 0, 152, 1, 0, 0, 16, 0, 0, 0, 152, 1, 0, 0, 0, 0, 0, 0, 0,
  0, 0, 0, 0, 0, 0, 0, 32, 0, 0, 96, 46, 114, 101, 108, 111, 99, 0, 0, 12,
  0, 0, 0, 168, 1, 0, 0, 12, 0, 0, 0, 168, 1, 0, 0, 0, 0, 0, 0, 0, 0, 0, 0,
  0, 0, 0, 0, 64, 0, 0, 66, 152, 17, 128, 0, 0, 0, 0, 0, 136, 119, 102, 85,
  68, 51, 34, 17, 0, 0, 0, 0, 12, 0, 0, 0, 152, 161, 0, 0]"
  unfolding sampleImage_def dosHeader_def fileHeader_def optionalHeader_def
    sectionHeader_def block_def
  by (simp add: putUint16_def putUint32_def putUint64_def zeros_unfold)

lemma peSections_numeral:
  "peSections (numeral k) tbl =
     (case readAt tbl 0 40 of
        None \<Rightarrow> None
      | Some sh \<Rightarrow>
          (case peSection sh of
             None \<Rightarrow> None
           | Some s \<Rightarrow>
               (case peSections (pred_numeral k) (drop 40 tbl) of
                  None \<Rightarrow> None
                | Some ss \<Rightarrow> Some (s # ss))))"
  by (simp add: numeral_eq_Suc)

lemma peNewFile_801000:
  "peNewFile (sampleImage 0x801000) =
     Some \<lparr>OptionalHeader = OptionalHeader64 0x801000,
           Sections = [\<lparr>Name = ''.text'', Data = (\<lambda>img. readAt img 0x198 0x10)\<rparr>,
                       \<lparr>Name = ''.reloc'', Data = (\<lambda>img. readAt img 0x1a8 12)\<rparr>]\<rparr>"
  unfolding sampleImage_801000
  by (simp add: peNewFile_def readAt_def getUint16_def getUint32_def getUint64_def Let_def
      peSections_numeral peSection_def cstring_def byteChar_def)

lemma sampleImage_140000000:
  "sampleImage 0x140000000 =
    [77, 90, 0, 0, 0, 0, 0, 0, 0, 0, 0, 0, 0, 0, 0, 0, 0, 0, 0, 0, 0, 0, 0, 0,
  0, 0, 0, 0, 0, 0, 0, 0, 0, 0, 0, 0, 0, 0, 0, 0, 0, 0, 0, 0, 0, 0, 0, 0, 0,
  0, 0, 0, 0, 0, 0, 0, 0, 0, 0, 0, 64, 0, 0, 0, 80, 69, 0, 0, 100, 134, 2,
  0, 0, 0, 0, 0, 0, 0, 0, 0, 0, 0, 0, 0, 240, 0, 34, 0, 11, 2, 0, 0, 16, 0,
  0, 0, 12, 0, 0, 0, 0, 0, 0, 0, 152, 1, 0, 0, 152, 1, 0, 0, 0, 0, 0, 64,
  1, 0, 0, 0, 4, 0, 0, 0, 4, 0, 0, 0, 0, 0, 0, 0, 0, 0, 0, 0, 0, 0, 0, 0, 0,
  0, 0, 0, 180, 1, 0, 0, 152, 1, 0, 0, 0, 0, 0, 0, 10, 0, 0, 0, 0, 0, 0, 0,
  0, 0, 0, 0, 0, 0, 0, 0, 0, 0, 0, 0, 0, 0, 0, 0, 0, 0, 0, 0, 0, 0, 0, 0, 0,
  0, 0, 0, 0, 0, 0, 0, 16, 0, 0, 0, 0, 0, 0, 0, 0, 0, 0, 0, 0, 0, 0, 0, 0,
  0, 0, 0, 0, 0, 0, 0, 0, 0, 0, 0, 0, 0, 0, 0, 0, 0, 0, 0, 0, 0, 0, 0, 0, 0,
  0, 0, 168, 1, 0, 0, 12, 0, 0, 0, 0, 0, 0, 0, 0, 0, 0, 0, 0, 0, 0, 0, 0, 0,
  0, 0, 0, 0, 0, 0, 0, 0, 0, 0, 0, 0, 0, 0, 0, 0, 0, 0, 0, 0, 0, 0, 0, 0, 0,
  0, 0, 0, 0, 0, 0, 0, 0, 0, 0, 0, 0, 0, 0, 0, 0, 0, 0, 0, 0, 0, 0, 0, 0, 0,
  0, 0, 0, 0, 0, 0, 0, 0, 0, 0, 0, 0, 0, 0, 0, 0, 46, 116, 101, 120, 116, 0,
  0, 0, 16, 0, 0, 0, 152, 1, 0, 0, 16, 0, 0, 0, 152, 1, 0, 0, 0, 0, 0, 0, 0,
  0, 0, 0, 0, 0, 0, 0, 32, 0, 0, 96, 46, 114, 101, 108, 111, 99, 0, 0, 12,
  0, 0, 0, 168, 1, 0, 0, 12, 0, 0, 0, 168, 1, 0, 0, 0, 0, 0, 0, 0, 0, 0, 0,
  0, 0, 0, 0, 64, 0, 0, 66, 152, 1, 0, 64, 1, 0, 0, 0, 136, 119, 102, 85,
  68, 51, 34, 17, 0, 0, 0, 0, 12, 0, 0, 0, 152, 161, 0, 0]"
  unfolding sampleImage_def dosHeader_def fileHeader_def optionalHeader_def
    sectionHeader_def block_def
  by (simp add: putUint16_def putUint32_def putUint64_def zeros_unfold)


lemma peNewFile_140000000:
  "peNewFile (sampleImage 0x140000000) =
     Some \<lparr>OptionalHeader = OptionalHeader64 0x140000000,
           Sections = [\<lparr>Name = ''.text'', Data = (\<lambda>img. readAt img 0x198 0x10)\<rparr>,
                       \<lparr>Name = ''.reloc'', Data = (\<lambda>img. readAt img 0x1a8 12)\<rparr>]\<rparr>"
  unfolding sampleImage_140000000
  by (simp add: peNewFile_def readAt_def getUint16_def getUint32_def getUint64_def Let_def
      peSections_numeral peSection_def cstring_def byteChar_def)

lemma length_sampleImage: "length (sampleImage base) = 436"
  by (simp add: sampleImage_def dosHeader_def fileHeader_def optionalHeader_def
      sectionHeader_def block_def)

lemma relocateFdtdata_sampleBlob:
  assumes "peNewFile (sampleImage base) = Some peFile"
    and "OptionalHeader peFile = OptionalHeader64 preBase"
  shows "relocateFdtdata peNewFile dst sampleFdtLoad (sampleBlob base) =
     (case relocSections (Sections peFile) (dst + 0x1000 - preBase) (sampleImage base) of
        (Some err, img') \<Rightarrow> (Some err, sampleFdtLoad, replicate 4096 0 @ img')
      | (None, img') \<Rightarrow>
          (None, sampleFdtLoad\<lparr>EntryStart := dst + 0x5ac3, Load := dst\<rparr>, replicate 4096 0 @ img'))"
  using assms
  by (simp add: relocateFdtdata_def sampleBlob_def sampleFdtLoad_def length_sampleImage
      split: prod.splits option.splits)

lemma relocSections_801000:
  "relocSections [\<lparr>Name = ''.text'', Data = (\<lambda>img. readAt img 0x198 0x10)\<rparr>,
                  \<lparr>Name = ''.reloc'', Data = (\<lambda>img. readAt img 0x1a8 12)\<rparr>]
       delta (sampleImage 0x801000)
     = (None, storeUint64 (sampleImage 0x801000) 0x198 (0x801198 + delta))"
  unfolding sampleImage_801000
  by (simp add: readAt_def walk_eval)

lemma relocSections_140000000:
  "relocSections [\<lparr>Name = ''.text'', Data = (\<lambda>img. readAt img 0x198 0x10)\<rparr>,
                  \<lparr>Name = ''.reloc'', Data = (\<lambda>img. readAt img 0x1a8 12)\<rparr>]
       delta (sampleImage 0x140000000)
     = (None, storeUint64 (sampleImage 0x140000000) 0x198 (0x140000198 + delta))"
  unfolding sampleImage_140000000
  by (simp add: readAt_def walk_eval)

lemma sampleBlob_slice:
  "take (unat (DataOffset sampleFdtLoad + DataSize sampleFdtLoad) - unat (DataOffset sampleFdtLoad))
     (drop (unat (DataOffset sampleFdtLoad)) (sampleBlob base)) = sampleImage base"
  by (simp add: sampleBlob_def sampleFdtLoad_def length_sampleImage)

subsection \<open>The placement and the bytes\<close>

text \<open>With a delta of zero the walk, and so every \<open>.reloc\<close> section, leaves the image as it is.\<close>

lemma relocBlocks_delta_zero:
  "relocBlocks r delta data = (e, data') \<Longrightarrow> delta = 0 \<Longrightarrow> data' = data"
proof (induction r delta data rule: relocBlocks.induct)
  case (1 r delta data)
  show ?case
  proof (cases "binary_Read_uint32 r")
    case (Inl err)
    with "1.prems"(1) show ?thesis by (subst (asm) relocBlocks.simps) (simp split: if_splits)
  next
    case (Inr a)
    obtain pageRVA r1 where a: "a = (pageRVA, r1)" by (cases a)
    show ?thesis
    proof (cases "binary_Read_uint32 r1")
      case (Inl err)
      with "1.prems"(1) Inr a show ?thesis by (subst (asm) relocBlocks.simps) simp
    next
      case r1: (Inr b)
      obtain blockSize r2 where b: "b = (blockSize, r2)" by (cases b)
      obtain e1 r3 data2 where
        w: "relocEntries 0 (unat ((blockSize - 8) div 2)) pageRVA delta r2 data = (e1, r3, data2)"
        by (cases "relocEntries 0 (unat ((blockSize - 8) div 2)) pageRVA delta r2 data") auto
      have d2: "data2 = data" using relocEntries_delta_zero [OF w "1.prems"(2)] .
      have rb: "relocBlocks r delta data =
          (case (e1, r3, data2) of (Some e, r3, data') \<Rightarrow> (Some e, data')
           | (None, r3, data') \<Rightarrow> relocBlocks r3 delta data')"
        using relocBlocks_block [of r pageRVA r1 blockSize r2 delta data] Inr a r1 b w by simp
      show ?thesis
      proof (cases e1)
        case (Some err)
        with rb "1.prems"(1) d2 show ?thesis by simp
      next
        case None
        with rb "1.prems"(1) have rest: "relocBlocks r3 delta data2 = (e, data')" by simp
        have "data' = data2"
          using "1.IH" Inr a r1 b w None rest "1.prems"(2) by auto
        with d2 show ?thesis by simp
      qed
    qed
  qed
qed

lemma relocSections_delta_zero:
  "relocSections sections 0 img = (e, img') \<Longrightarrow> img' = img"
proof (induction sections arbitrary: img)
  case Nil
  then show ?case by simp
next
  case (Cons s ss)
  show ?case
  proof (cases "Name s = ''.reloc''")
    case False
    with Cons show ?thesis by simp
  next
    case True
    show ?thesis
    proof (cases "Data s img")
      case None
      with True Cons.prems show ?thesis by simp
    next
      case (Some relocData)
      obtain e1 img1 where w: "relocatePE relocData 0 img = (e1, img1)"
        by (cases "relocatePE relocData 0 img") auto
      then have i1: "img1 = img" using relocBlocks_delta_zero [of relocData 0 img e1 img1]
        by (simp add: relocatePE_def)
      show ?thesis
      proof (cases e1)
        case None
        with True Some w i1 Cons.prems have "relocSections ss 0 img = (e, img')" by simp
        then show ?thesis by (rule Cons.IH)
      next
        case (Some err)
        with True \<open>Data s img = Some relocData\<close> w i1 Cons.prems show ?thesis by simp
      qed
    qed
  qed
qed

lemma splice_same:
  assumes "start \<le> end'" "end' \<le> length data"
  shows "take start data @ take (end' - start) (drop start data) @ drop end' data = data"
proof -
  have "drop end' data = drop (end' - start) (drop start data)" using assms by simp
  then have "take (end' - start) (drop start data) @ drop end' data = drop start data"
    by (simp only: append_take_drop_id)
  then show ?thesis by simp
qed

text \<open>
  Claim C3. On success \<open>relocateFdtdata\<close> sets \<open>EntryStart\<close> to
  \<open>dst + (EntryStart - Load)\<close> and \<open>Load\<close> to \<open>dst\<close>, all in \<open>uint64\<close>, and leaves the two
  other fields; so \<open>EntryStart - Load\<close> is the same before and after. For
  \<open>Load = 0x800000\<close>, \<open>EntryStart = 0x805ac3\<close> and \<open>dst = 0x10000000\<close> the result is
  \<open>Load = 0x10000000\<close> and \<open>EntryStart = 0x10005ac3\<close>.
\<close>

theorem relocateFdtdata_rebases:
  assumes "relocateFdtdata pe_NewFile dst fdtLoad data = (None, fdtLoad', data')"
  shows "EntryStart fdtLoad' = dst + (EntryStart fdtLoad - Load fdtLoad)
       \<and> Load fdtLoad' = dst
       \<and> EntryStart fdtLoad' - Load fdtLoad' = EntryStart fdtLoad - Load fdtLoad
       \<and> DataOffset fdtLoad' = DataOffset fdtLoad \<and> DataSize fdtLoad' = DataSize fdtLoad
       \<and> (Load fdtLoad = 0x800000 \<and> EntryStart fdtLoad = 0x805ac3 \<and> dst = 0x10000000
            \<longrightarrow> Load fdtLoad' = 0x10000000 \<and> EntryStart fdtLoad' = 0x10005ac3)"
proof -
  have "fdtLoad' = fdtLoad\<lparr>EntryStart := dst + (EntryStart fdtLoad - Load fdtLoad), Load := dst\<rparr>"
    using assms
    by (auto simp: relocateFdtdata_def Let_def
          split: if_splits option.splits OptionalHeader.splits prod.splits)
  then show ?thesis by auto
qed

text \<open>
  The small PE image linked for \<open>0x801000\<close> in the blob loaded at \<open>0x800000\<close> and moved
  to \<open>0x10000000\<close>: the relocation adds \<open>0xF800000\<close> to the one pointer of the image.
\<close>

theorem relocateFdtdata_rebases_witness:
  "relocateFdtdata peNewFile 0x10000000
      \<lparr>Load = 0x800000, EntryStart = 0x805ac3, DataOffset = 0x1000, DataSize = 436\<rparr>
      (sampleBlob 0x801000)
    = (None, \<lparr>Load = 0x10000000, EntryStart = 0x10005ac3, DataOffset = 0x1000, DataSize = 436\<rparr>,
       replicate 4096 0 @ storeUint64 (sampleImage 0x801000) 0x198 0x10001198)"
proof -
  have r: "relocateFdtdata peNewFile 0x10000000 sampleFdtLoad (sampleBlob 0x801000)
      = (None, sampleFdtLoad\<lparr>EntryStart := 0x10000000 + 0x5ac3, Load := 0x10000000\<rparr>,
         replicate 4096 0 @ storeUint64 (sampleImage 0x801000) 0x198 0x10001198)"
    by (simp add: relocateFdtdata_sampleBlob [OF peNewFile_801000] relocSections_801000
          del: relocSections.simps)
  have "Load (sampleFdtLoad\<lparr>EntryStart := 0x10000000 + 0x5ac3, Load := 0x10000000\<rparr>) = 0x10000000
      \<and> EntryStart (sampleFdtLoad\<lparr>EntryStart := 0x10000000 + 0x5ac3, Load := 0x10000000\<rparr>)
          = 0x10005ac3"
    using relocateFdtdata_rebases [OF r] by (simp add: sampleFdtLoad_def)
  then show ?thesis using r by (simp add: sampleFdtLoad_def)
qed

text \<open>
  Claim C5 says that relocation with \<open>dst\<close> equal to the original \<open>Load\<close> changes no
  byte of the image. The delta is \<open>dst + DataOffset - ImageBase\<close>, taken from the header of
  the image and not from \<open>Load\<close>. The small PE image linked for \<open>0x140000000\<close>, in the
  blob with \<open>Load = 0x800000\<close> and relocated to \<open>dst = 0x800000\<close>, is parsed and
  relocated without error, and its pointer \<open>0x140000198\<close> becomes \<open>0x801198\<close>.
\<close>

theorem relocateFdtdata_same_load_counterexample:
  "relocateFdtdata peNewFile 0x800000
      \<lparr>Load = 0x800000, EntryStart = 0x805ac3, DataOffset = 0x1000, DataSize = 436\<rparr>
      (sampleBlob 0x140000000)
    = (None, \<lparr>Load = 0x800000, EntryStart = 0x805ac3, DataOffset = 0x1000, DataSize = 436\<rparr>,
       replicate 4096 0 @ storeUint64 (sampleImage 0x140000000) 0x198 0x801198)
   \<and> sampleBlob 0x140000000 = replicate 4096 0 @ sampleImage 0x140000000
   \<and> getUint64 (drop 0x198 (sampleImage 0x140000000)) = 0x140000198
   \<and> getUint64 (drop 0x198 (storeUint64 (sampleImage 0x140000000) 0x198 0x801198)) = 0x801198"
proof -
  have r: "relocateFdtdata peNewFile 0x800000 sampleFdtLoad (sampleBlob 0x140000000)
      = (None, sampleFdtLoad\<lparr>EntryStart := 0x800000 + 0x5ac3, Load := 0x800000\<rparr>,
         replicate 4096 0 @ storeUint64 (sampleImage 0x140000000) 0x198 0x801198)"
    by (simp add: relocateFdtdata_sampleBlob [OF peNewFile_140000000] relocSections_140000000
          del: relocSections.simps)
  have old: "getUint64 (drop 0x198 (sampleImage 0x140000000)) = 0x140000198"
    unfolding sampleImage_140000000 by (simp add: getUint64_def)
  have new: "getUint64 (drop 0x198 (storeUint64 (sampleImage 0x140000000) 0x198 0x801198))
      = 0x801198"
    by (rule get_store_same) (simp add: length_sampleImage)
  from r old new show ?thesis by (simp add: sampleFdtLoad_def sampleBlob_def)
qed

text \<open>
  Claim C5, amended. Relocation with \<open>dst\<close> equal to the original \<open>Load\<close> leaves
  \<open>Load\<close> and \<open>EntryStart\<close> (the whole record) as they were, whatever the outcome. It
  leaves every byte of the blob as it was when the delta is zero, that is when the image
  base in the header of the image is \<open>Load + DataOffset\<close>.
\<close>

theorem relocateFdtdata_same_load:
  "fst (snd (relocateFdtdata pe_NewFile (Load fdtLoad) fdtLoad data)) = fdtLoad
   \<and> ((\<forall>peFile base.
          pe_NewFile (take (unat (DataOffset fdtLoad + DataSize fdtLoad) - unat (DataOffset fdtLoad))
                        (drop (unat (DataOffset fdtLoad)) data)) = Some peFile
          \<and> OptionalHeader peFile = OptionalHeader64 base
          \<longrightarrow> base = Load fdtLoad + ucast (DataOffset fdtLoad))
        \<longrightarrow> snd (snd (relocateFdtdata pe_NewFile (Load fdtLoad) fdtLoad data)) = data)"
proof
  show "fst (snd (relocateFdtdata pe_NewFile (Load fdtLoad) fdtLoad data)) = fdtLoad"
    by (auto simp: relocateFdtdata_def Let_def
          split: if_splits option.splits OptionalHeader.splits prod.splits)
next
  let ?start = "unat (DataOffset fdtLoad)"
  let ?end = "unat (DataOffset fdtLoad + DataSize fdtLoad)"
  let ?img = "take (?end - ?start) (drop ?start data)"
  show "(\<forall>peFile base. pe_NewFile ?img = Some peFile \<and> OptionalHeader peFile = OptionalHeader64 base
          \<longrightarrow> base = Load fdtLoad + ucast (DataOffset fdtLoad))
        \<longrightarrow> snd (snd (relocateFdtdata pe_NewFile (Load fdtLoad) fdtLoad data)) = data"
  proof
    assume base: "\<forall>peFile base. pe_NewFile ?img = Some peFile
        \<and> OptionalHeader peFile = OptionalHeader64 base
          \<longrightarrow> base = Load fdtLoad + ucast (DataOffset fdtLoad)"
    show "snd (snd (relocateFdtdata pe_NewFile (Load fdtLoad) fdtLoad data)) = data"
    proof (cases "?start \<le> ?end \<and> ?end \<le> length data")
      case False
      then show ?thesis by (simp add: relocateFdtdata_def Let_def)
    next
      case bounds: True
      show ?thesis
      proof (cases "pe_NewFile ?img")
        case None
        then show ?thesis using bounds by (simp add: relocateFdtdata_def Let_def)
      next
        case (Some peFile)
        show ?thesis
        proof (cases "OptionalHeader peFile")
          case OptionalHeader32
          then show ?thesis using bounds Some by (simp add: relocateFdtdata_def Let_def)
        next
          case NoOptionalHeader
          then show ?thesis using bounds Some by (simp add: relocateFdtdata_def Let_def)
        next
          case (OptionalHeader64 preBase)
          then have pb: "preBase = Load fdtLoad + ucast (DataOffset fdtLoad)"
            using base Some by blast
          obtain e img' where
            w: "relocSections (Sections peFile) 0 ?img = (e, img')"
            by (cases "relocSections (Sections peFile) 0 ?img") auto
          have same: "img' = ?img" by (rule relocSections_delta_zero [OF w])
          have sp: "take ?start data @ ?img @ drop ?end data = data"
            using bounds by (intro splice_same) simp_all
          show ?thesis
            using bounds Some OptionalHeader64 pb w same sp
            by (cases e) (simp_all add: relocateFdtdata_def Let_def)
        qed
      qed
    qed
  qed
qed

text \<open>
  The small PE image linked for \<open>0x801000\<close>, that is for \<open>Load + DataOffset\<close>, in the
  blob loaded at \<open>0x800000\<close> and relocated to \<open>0x800000\<close>: nothing changes.
\<close>

theorem relocateFdtdata_same_load_witness:
  "relocateFdtdata peNewFile 0x800000
      \<lparr>Load = 0x800000, EntryStart = 0x805ac3, DataOffset = 0x1000, DataSize = 436\<rparr>
      (sampleBlob 0x801000)
    = (None, \<lparr>Load = 0x800000, EntryStart = 0x805ac3, DataOffset = 0x1000, DataSize = 436\<rparr>,
       sampleBlob 0x801000)"
proof -
  have ok: "fst (relocateFdtdata peNewFile 0x800000 sampleFdtLoad (sampleBlob 0x801000)) = None"
    by (simp add: relocateFdtdata_sampleBlob [OF peNewFile_801000] relocSections_801000
          del: relocSections.simps)
  have l: "Load sampleFdtLoad = 0x800000" by (simp add: sampleFdtLoad_def)
  have "fst (snd (relocateFdtdata peNewFile 0x800000 sampleFdtLoad (sampleBlob 0x801000)))
          = sampleFdtLoad
      \<and> snd (snd (relocateFdtdata peNewFile 0x800000 sampleFdtLoad (sampleBlob 0x801000)))
          = sampleBlob 0x801000"
    using relocateFdtdata_same_load [of peNewFile sampleFdtLoad "sampleBlob 0x801000"]
    unfolding sampleBlob_slice l
    by (simp add: peNewFile_801000) (simp add: sampleFdtLoad_def)
  with ok have "relocateFdtdata peNewFile 0x800000 sampleFdtLoad (sampleBlob 0x801000)
      = (None, sampleFdtLoad, sampleBlob 0x801000)"
    by (cases "relocateFdtdata peNewFile 0x800000 sampleFdtLoad (sampleBlob 0x801000)") simp
  then show ?thesis by (simp add: sampleFdtLoad_def)
qed

section \<open>Reading the placement from the device tree\<close>

text \<open>
  Claim C8. Let the blob be read as a device tree. If the tree has a node \<open>images\<close> with
  a node \<open>tianocore\<close> holding the properties \<open>load\<close> and \<open>entry-start\<close>, which decode
  as 64-bit values, and \<open>data-offset\<close> and \<open>data-size\<close>, which decode as 32-bit values,
  \<open>getFdtInfo\<close> returns the record of exactly these four values. If a node or a property
  is absent (and what is looked up before it is there), it returns the error of that node
  or property and no record.
\<close>

theorem getFdtInfo_result:
  assumes "(case dtb of Some bs \<Rightarrow> ReadFDT dt bs | None \<Rightarrow> ReadFile dt name) = Inr fdt"
  shows
   "(FDT_NodeByName dt fdt ''images'' = None \<longrightarrow>
       getFdtInfo dt name dtb = Inl ErrNodeImagesNotFound)
  \<and> (\<forall>images. FDT_NodeByName dt fdt ''images'' = Some images \<longrightarrow>
      (Node_NodeByName dt images ''tianocore'' = None \<longrightarrow>
         getFdtInfo dt name dtb = Inl ErrNodeTianocoreNotFound)
    \<and> (\<forall>tianocore. Node_NodeByName dt images ''tianocore'' = Some tianocore \<longrightarrow>
        (LookProperty dt tianocore ''load'' = None \<longrightarrow>
           getFdtInfo dt name dtb = Inl ErrNodeLoadNotFound)
      \<and> (\<forall>p1 load. LookProperty dt tianocore ''load'' = Some p1 \<and> AsU64 dt p1 = Inr load \<longrightarrow>
          (LookProperty dt tianocore ''entry-start'' = None \<longrightarrow>
             getFdtInfo dt name dtb = Inl ErrNodeEntryStartNotFound)
        \<and> (\<forall>p2 entry. LookProperty dt tianocore ''entry-start'' = Some p2
                \<and> AsU64 dt p2 = Inr entry \<longrightarrow>
            (LookProperty dt tianocore ''data-offset'' = None \<longrightarrow>
               getFdtInfo dt name dtb = Inl ErrNodeDataOffsetNotFound)
          \<and> (\<forall>p3 off. LookProperty dt tianocore ''data-offset'' = Some p3
                  \<and> AsU32 dt p3 = Inr off \<longrightarrow>
              (LookProperty dt tianocore ''data-size'' = None \<longrightarrow>
                 getFdtInfo dt name dtb = Inl ErrNodeDataSizeNotFound)
            \<and> (\<forall>p4 size. LookProperty dt tianocore ''data-size'' = Some p4
                    \<and> AsU32 dt p4 = Inr size \<longrightarrow>
                 getFdtInfo dt name dtb
                   = Inr \<lparr>Load = load, EntryStart = entry,
                          DataOffset = off, DataSize = size\<rparr>))))))"
  using assms
  by (simp add: getFdtInfo_def FirstLevelNodeName_def SecondLevelNodeName_def
        LoadAddrPropertyName_def EntryAddrPropertyName_def DataOffsetPropertyName_def
        DataSizePropertyName_def)

lemmas tree_eval = treeLibrary_def childByName_def propertyByName_def propertyAsU64_def
  propertyAsU32_def getUint64_def getUint32_def

text \<open>
  The tree of the source's comment gives the four values of the comment, decoded
  big-endian; without the node \<open>tianocore\<close>, and without the property \<open>data-size\<close>, the
  errors are those of the node and of the property.
\<close>

theorem getFdtInfo_result_witness:
  "getFdtInfo (treeLibrary (\<lambda>bs. Inr sampleTree) (\<lambda>n. Inl ''no file'')) ''fit'' (Some [])
     = Inr \<lparr>Load = 0x800000, EntryStart = 0x805ac3, DataOffset = 0x1000, DataSize = 0x10000\<rparr>
   \<and> getFdtInfo (treeLibrary (\<lambda>bs. Inr (Node [] [] [Node ''images'' [] []])) (\<lambda>n. Inl ''no file''))
        ''fit'' (Some [])
     = Inl ErrNodeTianocoreNotFound
   \<and> getFdtInfo (treeLibrary (\<lambda>bs. Inr (Node [] [] [Node ''images'' [] [Node ''tianocore''
          [Property ''data-offset'' [0x00, 0x00, 0x10, 0x00],
           Property ''entry-start'' [0x00, 0x00, 0x00, 0x00, 0x00, 0x80, 0x5a, 0xc3],
           Property ''load'' [0x00, 0x00, 0x00, 0x00, 0x00, 0x80, 0x00, 0x00]] []]]))
          (\<lambda>n. Inl ''no file'')) ''fit'' (Some [])
     = Inl ErrNodeDataSizeNotFound"
proof -
  have 1: "getFdtInfo (treeLibrary (\<lambda>bs. Inr sampleTree) (\<lambda>n. Inl ''no file'')) ''fit'' (Some [])
     = Inr \<lparr>Load = 0x800000, EntryStart = 0x805ac3, DataOffset = 0x1000, DataSize = 0x10000\<rparr>"
    using getFdtInfo_result [where dtb = "Some []" and name = "''fit''" and fdt = sampleTree
        and dt = "treeLibrary (\<lambda>bs. Inr sampleTree) (\<lambda>n. Inl ''no file'')"]
    by (simp add: tree_eval sampleTree_def tianocoreNode_def)
  have 2: "getFdtInfo (treeLibrary (\<lambda>bs. Inr (Node [] [] [Node ''images'' [] []])) (\<lambda>n. Inl ''no file''))
        ''fit'' (Some []) = Inl ErrNodeTianocoreNotFound"
    using getFdtInfo_result [where dtb = "Some []" and name = "''fit''"
        and fdt = "Node [] [] [Node ''images'' [] []]"
        and dt = "treeLibrary (\<lambda>bs. Inr (Node [] [] [Node ''images'' [] []])) (\<lambda>n. Inl ''no file'')"]
    by (simp add: tree_eval)
  have 3: "getFdtInfo (treeLibrary (\<lambda>bs. Inr (Node [] [] [Node ''images'' [] [Node ''tianocore''
          [Property ''data-offset'' [0x00, 0x00, 0x10, 0x00],
           Property ''entry-start'' [0x00, 0x00, 0x00, 0x00, 0x00, 0x80, 0x5a, 0xc3],
           Property ''load'' [0x00, 0x00, 0x00, 0x00, 0x00, 0x80, 0x00, 0x00]] []]]))
          (\<lambda>n. Inl ''no file'')) ''fit'' (Some [])
     = Inl ErrNodeDataSizeNotFound"
    using getFdtInfo_result [where dtb = "Some []" and name = "''fit''" and dt =
        "treeLibrary (\<lambda>bs. Inr (Node [] [] [Node ''images'' [] [Node ''tianocore''
          [Property ''data-offset'' [0x00, 0x00, 0x10, 0x00],
           Property ''entry-start'' [0x00, 0x00, 0x00, 0x00, 0x00, 0x80, 0x5a, 0xc3],
           Property ''load'' [0x00, 0x00, 0x00, 0x00, 0x00, 0x80, 0x00, 0x00]] []]]))
          (\<lambda>n. Inl ''no file'')"
        and fdt = "Node [] [] [Node ''images'' [] [Node ''tianocore''
          [Property ''data-offset'' [0x00, 0x00, 0x10, 0x00],
           Property ''entry-start'' [0x00, 0x00, 0x00, 0x00, 0x00, 0x80, 0x5a, 0xc3],
           Property ''load'' [0x00, 0x00, 0x00, 0x00, 0x00, 0x80, 0x00, 0x00]] []]]"]
    by (simp add: tree_eval)
  from 1 2 3 show ?thesis by simp
qed

end
